theory Spec2Isabelle
  imports Main "HOL-Library.AList" "HOL-Library.Sublist"
begin

section \<open>Qualified names\<close>

text \<open>
  \<^verbatim>\<open>splitQualifiedName\<close> destructures the first two elements of
  \<^verbatim>\<open>string.split('.')\<close>. \<open>split_dot\<close> is JavaScript's
  \<^verbatim>\<open>String.prototype.split\<close> with the separator \<^verbatim>\<open>'.'\<close>: it cuts the
  string at every dot and always returns at least one segment. The second
  component of the destructuring is \<^verbatim>\<open>undefined\<close> when the string has no dot,
  which is \<open>None\<close> here.
\<close>

fun split_dot :: "string \<Rightarrow> string list" where
  "split_dot [] = [[]]"
| "split_dot (c # cs) =
     (if c = CHR ''.'' then [] # split_dot cs
      else (case split_dot cs of
              [] \<Rightarrow> [[c]]
            | seg # segs \<Rightarrow> (c # seg) # segs))"

definition splitQualifiedName :: "string \<Rightarrow> string \<times> string option" where
  "splitQualifiedName s =
     (case split_dot s of
        [] \<Rightarrow> ([], None)
      | [domain] \<Rightarrow> (domain, None)
      | domain # eventName # _ \<Rightarrow> (domain, Some eventName))"

definition qualifyName :: "string \<Rightarrow> string \<Rightarrow> string" where
  "qualifyName domain name = domain @ ''.'' @ name"

definition notDot :: "char \<Rightarrow> bool" where
  "notDot c = (c \<noteq> CHR ''.'')"

section \<open>Protocol values, messages and callbacks\<close>

text \<open>
  JavaScript values as far as the protocol client looks at them: what
  \<^verbatim>\<open>typeof\<close> answers, and the properties of a plain object. An object is an
  association list of its own properties.
\<close>

datatype jsval =
    JUndefined
  | JNull
  | JBoolean bool
  | JNumber int
  | JString string
  | JObject "(string \<times> jsval) list"

type_synonym obj = "(string \<times> jsval) list"

fun typeof :: "jsval \<Rightarrow> string" where
  "typeof JUndefined = ''undefined''"
| "typeof JNull = ''object''"
| "typeof (JBoolean b) = ''boolean''"
| "typeof (JNumber n) = ''number''"
| "typeof (JString s) = ''string''"
| "typeof (JObject ps) = ''object''"

definition DevToolsStubErrorCode :: int where
  "DevToolsStubErrorCode = - 32015"

definition GenericError :: int where
  "GenericError = - 32000"

definition ConnectionClosedErrorCode :: int where
  "ConnectionClosedErrorCode = - 32001"

record messageError =
  errCode :: int
  errMessage :: string
  errData :: "string option"

text \<open>
  The type \<^verbatim>\<open>Message\<close>. The router tests the fields \<^verbatim>\<open>id\<close> and \<^verbatim>\<open>method\<close>
  of an incoming message with \<^verbatim>\<open>!== undefined\<close>, so for these two a field
  that is absent and a field that is \<^verbatim>\<open>null\<close> are told apart. The other
  fields are only tested for being falsy: there a field that is absent or
  \<^verbatim>\<open>null\<close> is \<open>None\<close>. The fields \<^verbatim>\<open>url\<close> and \<^verbatim>\<open>timestamp\<close> are left out: the
  router writes the time of sending into the latter and never reads either.
\<close>

datatype 'a field = Absent | IsNull | Present 'a

record message =
  msgSessionId :: "string option"
  msgId :: "int field"
  msgError :: "messageError option"
  msgResult :: "obj option"
  msgDomain :: "string option"
  msgMethod :: "string field"
  msgParams :: "obj option"

text \<open>
  The message that \<^verbatim>\<open>_invoke\<close> builds for a debounced method and keeps in
  \<^verbatim>\<open>_cachedMessages\<close>: all four fields are set when it is built.
\<close>

record invokeMessage =
  imSessionId :: string
  imDomain :: string
  imMethod :: string
  imParams :: "obj option"

text \<open>
  Callbacks are closures; the model names them. A target is named by a
  number. \<open>InvokeCallback tag tgt method\<close> is the closure that one call of
  \<^verbatim>\<open>_invoke\<close> creates on the agent of the target \<open>tgt\<close> (the tag stands for
  the identity of that call and of its promise; the closure reaches the
  target through \<^verbatim>\<open>this._target\<close>), \<open>SendPromiseCallback tag method\<close> the one
  that \<^verbatim>\<open>_sendMessageToBackendPromise\<close> creates, and \<open>ExternalCallback n\<close> a
  callback of some other caller of the router, which is taken to return.
\<close>

datatype callback =
    InvokeCallback nat nat string
  | SendPromiseCallback nat string
  | ExternalCallback nat

record commandParameter =
  paramName :: string
  paramType :: string
  paramOptional :: bool

datatype protocolError =
    InvalidNumberOfArguments string "commandParameter list"
  | InvalidTypeOfArgument string string string string
  | ExtraArguments nat string

datatype consoleEntry =
    ConsoleErrorValidation protocolError
  | ConsoleErrorRequestFailed string messageError
  | ConsoleWarnRequestFailed string messageError
  | ConsoleLogSendingMsg string string string "obj option"
  | ConsoleErrorMultipleProxies

datatype resolution =
    ResolvedValue jsval
  | ResolvedResponse obj "string option"

datatype reportedError =
    ProxyWithoutOnMessage
  | WrongSessionId
  | WrongId
  | WithoutMethod

datatype jsError = TypeErrorNotAFunction | TypeErrorPropertyOfUndefined

text \<open>
  What leaves the router towards code that is not modelled is recorded in a
  trace: a callback being called, a promise being resolved, a message handed
  to a proxy connection, a call of \<^verbatim>\<open>InspectorBackend.reportProtocolError\<close>
  (whose body is commented out in this source), an event handed to a target's
  \<^verbatim>\<open>dispatch\<close>, a pending script being run, and an exception that a
  callback throws and that nothing in these sources catches.
\<close>

datatype event =
    Invoked callback "messageError option" "obj option"
  | Resolved nat resolution
  | ProxyForwarded nat message
  | ProtocolErrorReported reportedError message
  | TargetDispatched nat message
  | ScriptRun nat
  | Uncaught jsError

datatype timer =
    ConnectionErrorTimer callback string
  | UnregisterSessionErrorTimer callback string
  | PendingDispatchesTimer

record targetRef =
  targetId :: nat
  needsNodeJSPatching :: bool

record proxyRef =
  proxyId :: nat
  proxyHasOnMessage :: bool

record session =
  target :: targetRef
  callbacks :: "(int \<times> callback \<times> string) list"
  proxyConnection :: "proxyRef option"

section \<open>The state of a router, its connection, the targets and the agents of a domain\<close>

text \<open>
  One record holds the fields of a \<^verbatim>\<open>SessionRouter\<close>, what its
  \<^verbatim>\<open>Connection\<close> was asked to send (\<open>connectionSent\<close>, one entry for each
  \<^verbatim>\<open>sendRawMessage\<close>), the queue of \<^verbatim>\<open>setTimeout(..., 0)\<close> callbacks, the
  console, the global \<^verbatim>\<open>test.suppressRequestErrors\<close>, the targets, and the
  \<^verbatim>\<open>_AgentPrototype\<close> of one domain.

  Every target has an agent of the domain, made by
  \<^verbatim>\<open>Object.create(agentPrototype)\<close> with its own \<^verbatim>\<open>_target\<close>; everything
  else that an agent reads or writes is a field of the prototype, set once by
  its constructor. So \<open>agentDomain\<close>, \<open>commands\<close>, \<open>replyArgs\<close>,
  \<open>cachedMessages\<close> and \<open>unresolvedMessages\<close> are shared by the agents of
  all targets, and an agent is given by the number of its target:
  \<open>targetSessionId w tgt\<close> is the \<^verbatim>\<open>_sessionId\<close> of the target \<open>tgt\<close>, and
  \<open>targetRouter w tgt\<close> tells whether its \<^verbatim>\<open>_router\<close> is set; when it is, it
  is this router. \<open>issuedIds\<close> lists the values that \<^verbatim>\<open>_nextMessageId\<close> has
  returned, oldest first. A JavaScript \<^verbatim>\<open>Map\<close> or object used as a table is an
  association list in insertion order, the \<^verbatim>\<open>Set\<close> of long polling ids a
  list without repetition.

  Not modelled: the hooks of the object \<^verbatim>\<open>test\<close> other than
  \<^verbatim>\<open>suppressRequestErrors\<close> (they are \<^verbatim>\<open>null\<close> unless a test sets them), the
  latency statistics that \<^verbatim>\<open>_invoke\<close> and \<^verbatim>\<open>sendMessage\<close> post to the host
  window, and the parsing of a message that arrives as a string.
\<close>

record world =
  connectionSent :: "message list"
  lastMessageId :: int
  issuedIds :: "int list"
  pendingResponsesCount :: int
  pendingLongPollingMessageIds :: "int list"
  sessions :: "(string \<times> session) list"
  pendingScripts :: "nat list"
  timers :: "timer list"
  console :: "consoleEntry list"
  trace :: "event list"
  suppressRequestErrors :: bool
  agentDomain :: string
  targetSessionId :: "nat \<Rightarrow> string"
  targetRouter :: "nat \<Rightarrow> bool"
  commands :: "(string \<times> commandParameter list) list"
  replyArgs :: "(string \<times> string list) list"
  cachedMessages :: "(string \<times> invokeMessage \<times> callback) list"
  unresolvedMessages :: "(string \<times> nat) list"

definition LongPollingMethods :: "string list" where
  "LongPollingMethods = [''CSS.takeComputedStyleUpdates'']"

definition debouncedMethods :: "string list" where
  "debouncedMethods =
     [''DOM.getBoxModel'', ''DOM.getNodeForLocation'', ''CSS.getComputedStyleForNode'']"

text \<open>
  The constructors of \<^verbatim>\<open>SessionRouter\<close> and \<^verbatim>\<open>_AgentPrototype\<close>: a router
  with no session and the counter at 1, and the prototype of the given domain
  with empty tables; the target \<open>tgt\<close> has the session id \<open>sessionIds tgt\<close>
  and this router.
\<close>

definition newWorld :: "string \<Rightarrow> (nat \<Rightarrow> string) \<Rightarrow> world" where
  "newWorld domain sessionIds =
     \<lparr> connectionSent = [], lastMessageId = 1, issuedIds = [],
       pendingResponsesCount = 0, pendingLongPollingMessageIds = [],
       sessions = [], pendingScripts = [], timers = [], console = [], trace = [],
       suppressRequestErrors = False, agentDomain = domain,
       targetSessionId = sessionIds, targetRouter = (\<lambda>tgt. True),
       commands = [], replyArgs = [], cachedMessages = [], unresolvedMessages = [] \<rparr>"

text \<open>
  Message ids and counters are JavaScript numbers, that is, double precision
  floating point numbers. Every integer from \<open>- 2\<^sup>5\<^sup>3\<close> to \<open>2\<^sup>5\<^sup>3\<close> is such a
  number, so \<^verbatim>\<open>n + 1\<close> is exact for an integer \<open>n\<close> below \<open>2\<^sup>5\<^sup>3\<close>; but
  \<open>2\<^sup>5\<^sup>3 + 1\<close> is not a number, and the sum \<^verbatim>\<open>n + 1\<close> at \<open>n = 2\<^sup>5\<^sup>3\<close> is rounded
  to the nearest number, the even one of two equally near, which is \<open>2\<^sup>5\<^sup>3\<close>
  again. In the same way \<^verbatim>\<open>n - 1\<close> is exact above \<open>- 2\<^sup>5\<^sup>3\<close> and gives
  \<open>- 2\<^sup>5\<^sup>3\<close> at \<open>- 2\<^sup>5\<^sup>3\<close>. \<open>jsIncrement\<close> and \<open>jsDecrement\<close> are \<^verbatim>\<open>n + 1\<close>
  and \<^verbatim>\<open>n - 1\<close> on the integers of this range, which the counters never
  leave: they start at 1 and at 0 and change by these two operations only.
\<close>

definition doubleIntegerLimit :: int where
  "doubleIntegerLimit = 2 ^ 53"

definition jsIncrement :: "int \<Rightarrow> int" where
  "jsIncrement n = (if n < doubleIntegerLimit then n + 1 else n)"

definition jsDecrement :: "int \<Rightarrow> int" where
  "jsDecrement n = (if - doubleIntegerLimit < n then n - 1 else n)"

section \<open>SessionRouter\<close>

definition registerSession :: "targetRef \<Rightarrow> string \<Rightarrow> proxyRef option \<Rightarrow> world \<Rightarrow> world" where
  "registerSession tgt sessionId proxy w =
     (let w1 = (if proxy \<noteq> None \<and> list_ex (\<lambda>s. proxyConnection s \<noteq> None) (map snd (sessions w))
                then w\<lparr>console := console w @ [ConsoleErrorMultipleProxies]\<rparr>
                else w)
      in w1\<lparr>sessions :=
               AList.update sessionId
                 \<lparr>target = tgt, callbacks = [], proxyConnection = proxy\<rparr> (sessions w1)\<rparr>)"

definition unregisterSession :: "string \<Rightarrow> world \<Rightarrow> world" where
  "unregisterSession sessionId w =
     (case map_of (sessions w) sessionId of
        None \<Rightarrow> w
      | Some s \<Rightarrow>
          w\<lparr>timers := timers w
                 @ map (\<lambda>(i, cb, m). UnregisterSessionErrorTimer cb m) (callbacks s),
            sessions := AList.delete sessionId (sessions w)\<rparr>)"

definition nextMessageId :: "world \<Rightarrow> int \<times> world" where
  "nextMessageId w =
     (lastMessageId w,
      w\<lparr>lastMessageId := jsIncrement (lastMessageId w),
        issuedIds := issuedIds w @ [lastMessageId w]\<rparr>)"

definition setAdd :: "int \<Rightarrow> int list \<Rightarrow> int list" where
  "setAdd x xs = (if x \<in> set xs then xs else xs @ [x])"

definition sendMessage ::
  "string \<Rightarrow> string \<Rightarrow> string \<Rightarrow> obj option \<Rightarrow> callback \<Rightarrow> world \<Rightarrow> world" where
  "sendMessage sessionId domain method params callback w =
     (let (messageId, w1) = nextMessageId w;
          messageObject =
            \<lparr> msgSessionId = (if sessionId = [] then None else Some sessionId),
              msgId = Present messageId, msgError = None, msgResult = None,
              msgDomain = None, msgMethod = Present method, msgParams = params \<rparr>;
          w2 = w1\<lparr>pendingResponsesCount := jsIncrement (pendingResponsesCount w1)\<rparr>;
          w3 = (if method \<in> set LongPollingMethods
                then w2\<lparr>pendingLongPollingMessageIds :=
                          setAdd messageId (pendingLongPollingMessageIds w2)\<rparr>
                else w2)
      in case map_of (sessions w3) sessionId of
           None \<Rightarrow> w3
         | Some s \<Rightarrow>
             w3\<lparr>sessions :=
                  AList.update sessionId
                    (s\<lparr>callbacks := AList.update messageId (callback, method) (callbacks s)\<rparr>)
                    (sessions w3),
                connectionSent := connectionSent w3 @ [messageObject]\<rparr>)"

definition hasOutstandingNonLongPollingRequests :: "world \<Rightarrow> bool" where
  "hasOutstandingNonLongPollingRequests w =
     (pendingResponsesCount w - int (length (pendingLongPollingMessageIds w)) > 0)"

definition deprecatedRunAfterPendingDispatches :: "nat option \<Rightarrow> world \<Rightarrow> world" where
  "deprecatedRunAfterPendingDispatches script w =
     (let w1 = (case script of
                  None \<Rightarrow> w
                | Some sc \<Rightarrow> w\<lparr>pendingScripts := pendingScripts w @ [sc]\<rparr>)
      in w1\<lparr>timers := timers w1 @ [PendingDispatchesTimer]\<rparr>)"

definition executeAfterPendingDispatches :: "world \<Rightarrow> world" where
  "executeAfterPendingDispatches w =
     (if \<not> hasOutstandingNonLongPollingRequests w
      then w\<lparr>pendingScripts := [], trace := trace w @ map ScriptRun (pendingScripts w)\<rparr>
      else w)"

definition reportProtocolError :: "reportedError \<Rightarrow> message \<Rightarrow> world \<Rightarrow> world" where
  "reportProtocolError e m w = w\<lparr>trace := trace w @ [ProtocolErrorReported e m]\<rparr>"

section \<open>The agent: validation, sending, coalescing\<close>

text \<open>
  \<^verbatim>\<open>_prepareParameters\<close>. The loop takes the arguments from the front
  (\<^verbatim>\<open>args.shift()\<close>, which gives \<^verbatim>\<open>undefined\<close> on an empty array). The
  result is \<open>Inl e\<close> where the source calls \<^verbatim>\<open>errorCallback\<close> with the message
  \<open>e\<close> and returns \<^verbatim>\<open>null\<close>; each of the three messages is a non-empty
  string. The first argument of \<open>prepareLoop\<close> after the method is the whole
  schema, which the first message quotes.
\<close>

fun prepareLoop ::
  "string \<Rightarrow> commandParameter list \<Rightarrow> commandParameter list \<Rightarrow> jsval list \<Rightarrow> obj \<Rightarrow> bool
     \<Rightarrow> protocolError + obj option" where
  "prepareLoop method parameters [] args params hasParams =
     (if args \<noteq> [] then Inl (ExtraArguments (length args) method)
      else Inr (if hasParams then Some params else None))"
| "prepareLoop method parameters (param # rest) args params hasParams =
     (if args = [] \<and> \<not> paramOptional param
      then Inl (InvalidNumberOfArguments method parameters)
      else
        (let val = (case args of [] \<Rightarrow> JUndefined | v # _ \<Rightarrow> v);
             args' = drop 1 args
         in if paramOptional param \<and> typeof val = ''undefined''
            then prepareLoop method parameters rest args' params hasParams
            else if typeof val \<noteq> paramType param
            then Inl (InvalidTypeOfArgument (paramName param) method (paramType param) (typeof val))
            else prepareLoop method parameters rest args'
                   (AList.update (paramName param) val params) True))"

definition prepareParameters ::
  "string \<Rightarrow> commandParameter list \<Rightarrow> jsval list \<Rightarrow> protocolError + obj option" where
  "prepareParameters method parameters args =
     prepareLoop method parameters parameters args [] False"

definition loggedErrorCode :: "world \<Rightarrow> messageError \<Rightarrow> bool" where
  "loggedErrorCode w e =
     (\<not> suppressRequestErrors w \<and> errCode e \<noteq> DevToolsStubErrorCode
      \<and> errCode e \<noteq> GenericError \<and> errCode e \<noteq> ConnectionClosedErrorCode)"

definition destructMessage ::
  "invokeMessage \<times> callback \<Rightarrow> string \<times> string \<times> string \<times> obj option \<times> callback" where
  "destructMessage mc =
     (imSessionId (fst mc), imDomain (fst mc), imMethod (fst mc), imParams (fst mc), snd mc)"

definition sendDestructed ::
  "string \<times> string \<times> string \<times> obj option \<times> callback \<Rightarrow> world \<Rightarrow> world" where
  "sendDestructed a w =
     (case a of (sessionId, domain, method, params, callback) \<Rightarrow>
        sendMessage sessionId domain method params callback w)"

definition isUnresolved :: "world \<Rightarrow> string \<Rightarrow> bool" where
  "isUnresolved w method =
     (case map_of (unresolvedMessages w) method of None \<Rightarrow> False | Some n \<Rightarrow> n \<noteq> 0)"

text \<open>
  What a callback does when it is called with \<open>(error, result)\<close>:
  \<open>commandCallback\<close> is the body of the closure that
  \<^verbatim>\<open>_sendMessageToBackendPromise\<close> creates, \<open>invokeCallbackBody\<close> the body of
  the closure of \<^verbatim>\<open>_invoke\<close>. The former looks up the reply fields of its
  method in \<^verbatim>\<open>_replyArgs\<close> when it is called with a result; the value of
  \<^verbatim>\<open>result && args.length\<close> needs \<^verbatim>\<open>args\<close> only when there is a result, and
  then a method without an entry makes the closure throw. The latter runs the
  debouncing logic (\<open>sendCachedMessage\<close>): it clears the method's entry of
  \<^verbatim>\<open>_unresolvedMessages\<close> and, when a message is cached for the method, sends
  that message (or, when the target of its agent has no router, schedules a
  connection error for itself), before it resolves its promise.
  \<open>invokeCallback\<close> records the call and runs the body; its second result
  tells whether the callback threw.
\<close>

definition commandCallback ::
  "nat \<Rightarrow> string \<Rightarrow> messageError option \<Rightarrow> obj option \<Rightarrow> world \<Rightarrow> world \<times> bool" where
  "commandCallback tag method error result w =
     (case error of
        Some e \<Rightarrow>
          (let w1 = (if loggedErrorCode w e
                     then w\<lparr>console := console w @ [ConsoleErrorRequestFailed method e]\<rparr>
                     else w)
           in (w1\<lparr>trace := trace w1 @ [Resolved tag (ResolvedValue JNull)]\<rparr>, False))
      | None \<Rightarrow>
          (case result of
             None \<Rightarrow> (w\<lparr>trace := trace w @ [Resolved tag (ResolvedValue JUndefined)]\<rparr>, False)
           | Some r \<Rightarrow>
               (case map_of (replyArgs w) method of
                  None \<Rightarrow>
                    (w\<lparr>trace := trace w @ [Uncaught TypeErrorPropertyOfUndefined]\<rparr>, True)
                | Some args \<Rightarrow>
                    (w\<lparr>trace := trace w @
                       [Resolved tag (ResolvedValue
                          (case args of
                             [] \<Rightarrow> JUndefined
                           | a # _ \<Rightarrow>
                               (case map_of r a of None \<Rightarrow> JUndefined | Some v \<Rightarrow> v)))]\<rparr>,
                     False))))"

definition sendCachedMessage :: "callback \<Rightarrow> nat \<Rightarrow> string \<Rightarrow> world \<Rightarrow> world" where
  "sendCachedMessage cb tgt method w =
     (let w' = w\<lparr>unresolvedMessages := AList.delete method (unresolvedMessages w)\<rparr>
      in case map_of (cachedMessages w') method of
           None \<Rightarrow> w'
         | Some cached \<Rightarrow>
             if \<not> targetRouter w' tgt
             then w'\<lparr>timers := timers w' @ [ConnectionErrorTimer cb method]\<rparr>
             else
               (let w'' = sendDestructed (destructMessage cached) w'
                in w''\<lparr>unresolvedMessages := AList.update method 1 (unresolvedMessages w''),
                       cachedMessages := AList.delete method (cachedMessages w'')\<rparr>))"

definition invokeCallbackBody ::
  "nat \<Rightarrow> nat \<Rightarrow> string \<Rightarrow> messageError option \<Rightarrow> obj option \<Rightarrow> world \<Rightarrow> world" where
  "invokeCallbackBody tag tgt method error result w =
     (let w1 = (case error of
                  None \<Rightarrow> w
                | Some e \<Rightarrow>
                    if loggedErrorCode w e
                    then w\<lparr>console := console w @ [ConsoleWarnRequestFailed method e]\<rparr>
                    else w);
          w2 = (if method \<in> set debouncedMethods
                then sendCachedMessage (InvokeCallback tag tgt method) tgt method w1
                else w1)
      in w2\<lparr>trace := trace w2 @
            [Resolved tag
               (ResolvedResponse (case result of None \<Rightarrow> [] | Some r \<Rightarrow> r)
                  (map_option errMessage error))]\<rparr>)"

definition invokeCallback ::
  "callback \<Rightarrow> messageError option \<Rightarrow> obj option \<Rightarrow> world \<Rightarrow> world \<times> bool" where
  "invokeCallback cb error result w0 =
     (let w = w0\<lparr>trace := trace w0 @ [Invoked cb error result]\<rparr>
      in case cb of
           ExternalCallback n \<Rightarrow> (w, False)
         | SendPromiseCallback tag method \<Rightarrow>
             commandCallback tag method error result w
         | InvokeCallback tag tgt method \<Rightarrow>
             (invokeCallbackBody tag tgt method error result w, False))"

text \<open>
  \<^verbatim>\<open>_invoke\<close>, called as the call \<open>tag\<close> on the agent of the target \<open>tgt\<close>.
  The tables \<^verbatim>\<open>_cachedMessages\<close> and \<^verbatim>\<open>_unresolvedMessages\<close> that it reads
  and writes are those of the prototype, whichever agent is called.
\<close>

definition invoke :: "nat \<Rightarrow> nat \<Rightarrow> string \<Rightarrow> obj option \<Rightarrow> world \<Rightarrow> world" where
  "invoke tag tgt method request w =
     (let message = \<lparr> imSessionId = targetSessionId w tgt, imDomain = agentDomain w,
                       imMethod = method, imParams = request \<rparr>;
          callback = InvokeCallback tag tgt method
      in if \<not> targetRouter w tgt
         then w\<lparr>timers := timers w @ [ConnectionErrorTimer callback method]\<rparr>
         else if method \<in> set debouncedMethods
         then
           (if \<not> isUnresolved w method
            then
              (case map_of (cachedMessages w) method of
                 None \<Rightarrow>
                   sendDestructed (destructMessage (message, callback))
                     (w\<lparr>unresolvedMessages := AList.update method 1 (unresolvedMessages w)\<rparr>)
               | Some cached \<Rightarrow>
                   (let w' = sendDestructed (destructMessage cached) w
                    in w'\<lparr>cachedMessages :=
                            AList.update method (message, callback) (cachedMessages w')\<rparr>))
            else w\<lparr>cachedMessages :=
                     AList.update method (message, callback) (cachedMessages w)\<rparr>)
         else sendMessage (targetSessionId w tgt) (agentDomain w) method request callback w)"

text \<open>
  \<^verbatim>\<open>registerCommand\<close> installs the method \<^verbatim>\<open>this[methodName]\<close> on the
  prototype, a closure over the qualified name and the schema (the table
  \<open>commands\<close>), and enters the reply fields into \<^verbatim>\<open>_replyArgs\<close> under the
  qualified name. \<open>callCommand\<close> calls the installed method on the agent of the
  target \<open>tgt\<close>: a name that was never registered is not a function.
\<close>

definition registerCommand ::
  "string \<Rightarrow> commandParameter list \<Rightarrow> string list \<Rightarrow> world \<Rightarrow> world" where
  "registerCommand methodName parameters args w =
     w\<lparr>commands := AList.update methodName parameters (commands w),
       replyArgs := AList.update (qualifyName (agentDomain w) methodName) args (replyArgs w)\<rparr>"

definition sendMessageToBackendPromise ::
  "nat \<Rightarrow> nat \<Rightarrow> string \<Rightarrow> commandParameter list \<Rightarrow> jsval list \<Rightarrow> world \<Rightarrow> world" where
  "sendMessageToBackendPromise tag tgt method parameters args w =
     (case prepareParameters method parameters args of
        Inl e \<Rightarrow>
          w\<lparr>console := console w @ [ConsoleErrorValidation e],
            trace := trace w @ [Resolved tag (ResolvedValue JNull)]\<rparr>
      | Inr params \<Rightarrow>
          (let callback = SendPromiseCallback tag method
           in if \<not> targetRouter w tgt
              then w\<lparr>timers := timers w @ [ConnectionErrorTimer callback method]\<rparr>
              else
                sendMessage (targetSessionId w tgt) (agentDomain w) method params callback
                  (w\<lparr>console := console w @
                       [ConsoleLogSendingMsg (targetSessionId w tgt) (agentDomain w) method
                          params]\<rparr>)))"

definition callCommand ::
  "nat \<Rightarrow> nat \<Rightarrow> string \<Rightarrow> jsval list \<Rightarrow> world \<Rightarrow> jsError + world" where
  "callCommand tag tgt methodName args w =
     (case map_of (commands w) methodName of
        None \<Rightarrow> Inl TypeErrorNotAFunction
      | Some parameters \<Rightarrow>
          Inr (sendMessageToBackendPromise tag tgt (qualifyName (agentDomain w) methodName)
                 parameters args w))"

text \<open>\<^verbatim>\<open>TargetBase.dispose\<close> of the target \<open>tgt\<close>.\<close>

definition dispose :: "nat \<Rightarrow> world \<Rightarrow> world" where
  "dispose tgt w =
     (if \<not> targetRouter w tgt then w
      else (unregisterSession (targetSessionId w tgt) w)
             \<lparr>targetRouter := (targetRouter w)(tgt := False)\<rparr>)"

section \<open>Incoming messages and timers\<close>

text \<open>
  The loop of \<^verbatim>\<open>_onMessage\<close> over all sessions that hands the message to
  every proxy connection; it returns what it did and the flag
  \<^verbatim>\<open>suppressUnknownMessageErrors\<close>.
\<close>

fun forwardToProxies :: "message \<Rightarrow> session list \<Rightarrow> event list \<times> bool" where
  "forwardToProxies m [] = ([], False)"
| "forwardToProxies m (s # ss) =
     (case proxyConnection s of
        None \<Rightarrow> forwardToProxies m ss
      | Some p \<Rightarrow>
          (let (evs, suppress) = forwardToProxies m ss
           in if \<not> proxyHasOnMessage p
              then (ProtocolErrorReported ProxyWithoutOnMessage m # evs, suppress)
              else (ProxyForwarded (proxyId p) m # evs, True)))"

text \<open>
  \<^verbatim>\<open>_onMessage\<close>. The argument is the parsed message, \<open>None\<close> when it is
  falsy. \<open>patch\<close> stands for \<^verbatim>\<open>NodeURL.patch\<close>, which is not part of the
  sources at hand. \<open>handleResponse\<close> is the branch for a message whose id is
  a number: an exception of the callback ends the call where it is. A message
  whose id is \<^verbatim>\<open>null\<close> takes the same branch and finds no callback, the keys
  of the callback map being numbers. A message with no id but a method goes
  to \<^verbatim>\<open>dispatch\<close> of the session's target, also when the method is \<^verbatim>\<open>null\<close>.
\<close>

definition handleResponse ::
  "string \<Rightarrow> session \<Rightarrow> int \<Rightarrow> message \<Rightarrow> bool \<Rightarrow> world \<Rightarrow> world" where
  "handleResponse sessionId s i mo suppressUnknownMessageErrors w1 =
     (let w2 = w1\<lparr>sessions :=
                   AList.update sessionId
                     (s\<lparr>callbacks := AList.delete i (callbacks s)\<rparr>) (sessions w1)\<rparr>
      in case map_of (callbacks s) i of
           None \<Rightarrow>
             if \<not> suppressUnknownMessageErrors
             then reportProtocolError WrongId mo w2
             else w2
         | Some (cb, method) \<Rightarrow>
             (let called = invokeCallback cb (msgError mo) (msgResult mo) w2;
                  w3 = fst called;
                  w4 = w3\<lparr>pendingResponsesCount := jsDecrement (pendingResponsesCount w3),
                           pendingLongPollingMessageIds :=
                             removeAll i (pendingLongPollingMessageIds w3)\<rparr>
              in if snd called then w3
                 else if pendingScripts w4 \<noteq> [] \<and> \<not> hasOutstandingNonLongPollingRequests w4
                 then deprecatedRunAfterPendingDispatches None w4
                 else w4))"

definition onMessage :: "(message \<Rightarrow> message) \<Rightarrow> message option \<Rightarrow> world \<Rightarrow> world" where
  "onMessage patch incoming w =
     (case incoming of
        None \<Rightarrow> w
      | Some messageObject \<Rightarrow>
          (let (evs, suppressUnknownMessageErrors) =
                 forwardToProxies messageObject (map snd (sessions w));
               w1 = w\<lparr>trace := trace w @ evs\<rparr>;
               sessionId = (case msgSessionId messageObject of None \<Rightarrow> [] | Some sid \<Rightarrow> sid)
           in case map_of (sessions w1) sessionId of
                None \<Rightarrow>
                  if \<not> suppressUnknownMessageErrors
                  then reportProtocolError WrongSessionId messageObject w1
                  else w1
              | Some s \<Rightarrow>
                  if proxyConnection s \<noteq> None then w1
                  else
                    (let mo = (if needsNodeJSPatching (target s)
                               then patch messageObject else messageObject)
                     in case msgId mo of
                          Present i \<Rightarrow>
                            handleResponse sessionId s i mo suppressUnknownMessageErrors w1
                        | IsNull \<Rightarrow>
                            if \<not> suppressUnknownMessageErrors
                            then reportProtocolError WrongId mo w1
                            else w1
                        | Absent \<Rightarrow>
                            (case msgMethod mo of
                               Absent \<Rightarrow> reportProtocolError WithoutMethod mo w1
                             | _ \<Rightarrow>
                                 w1\<lparr>trace := trace w1 @
                                      [TargetDispatched (targetId (target s)) mo]\<rparr>))))"

definition connectionError :: "string \<Rightarrow> messageError" where
  "connectionError method =
     \<lparr> errCode = ConnectionClosedErrorCode,
       errMessage = ''Connection is closed, can't dispatch pending call to '' @ method,
       errData = None \<rparr>"

definition unregisterSessionError :: "string \<Rightarrow> messageError" where
  "unregisterSessionError method =
     \<lparr> errCode = ConnectionClosedErrorCode,
       errMessage = ''Session is unregistering, can't dispatch pending call to '' @ method,
       errData = None \<rparr>"

text \<open>
  The event loop runs the oldest timer. An exception of the callback ends the
  timer's turn.
\<close>

definition runNextTimer :: "world \<Rightarrow> world" where
  "runNextTimer w =
     (case timers w of
        [] \<Rightarrow> w
      | t # ts \<Rightarrow>
          (let w1 = w\<lparr>timers := ts\<rparr>
           in case t of
                ConnectionErrorTimer cb method \<Rightarrow>
                  fst (invokeCallback cb (Some (connectionError method)) None w1)
              | UnregisterSessionErrorTimer cb method \<Rightarrow>
                  fst (invokeCallback cb (Some (unregisterSessionError method)) None w1)
              | PendingDispatchesTimer \<Rightarrow>
                  if \<not> hasOutstandingNonLongPollingRequests w1
                  then executeAfterPendingDispatches w1
                  else deprecatedRunAfterPendingDispatches None w1))"

section \<open>Runs\<close>

text \<open>
  The calls that the rest of the program and the event loop can make, one
  after the other: JavaScript runs each to completion before the next.
\<close>

datatype op =
    Invoke nat nat string "obj option"
  | RegisterCommand string "commandParameter list" "string list"
  | CallCommand nat nat string "jsval list"
  | SendMessage string string string "obj option" callback
  | OnMessage "message option"
  | RegisterSession targetRef string "proxyRef option"
  | UnregisterSession string
  | RunAfterPendingDispatches nat
  | RunNextTimer
  | Dispose nat

fun step :: "(message \<Rightarrow> message) \<Rightarrow> op \<Rightarrow> world \<Rightarrow> world" where
  "step patch (Invoke tag tgt method request) w = invoke tag tgt method request w"
| "step patch (RegisterCommand name parameters args) w =
     registerCommand name parameters args w"
| "step patch (CallCommand tag tgt name args) w =
     (case callCommand tag tgt name args w of Inl e \<Rightarrow> w | Inr w' \<Rightarrow> w')"
| "step patch (SendMessage sessionId domain method params cb) w =
     sendMessage sessionId domain method params cb w"
| "step patch (OnMessage incoming) w = onMessage patch incoming w"
| "step patch (RegisterSession tgt sessionId proxy) w = registerSession tgt sessionId proxy w"
| "step patch (UnregisterSession sessionId) w = unregisterSession sessionId w"
| "step patch (RunAfterPendingDispatches script) w =
     deprecatedRunAfterPendingDispatches (Some script) w"
| "step patch RunNextTimer w = runNextTimer w"
| "step patch (Dispose tgt) w = dispose tgt w"

fun run :: "(message \<Rightarrow> message) \<Rightarrow> op list \<Rightarrow> world \<Rightarrow> world" where
  "run patch [] w = w"
| "run patch (x # xs) w = run patch xs (step patch x w)"

text \<open>
  \<open>creates x cb\<close>: the call \<open>x\<close> brings the callback \<open>cb\<close> into the router or
  the agent, as an argument or as a closure that the call creates.
\<close>

fun creates :: "op \<Rightarrow> callback \<Rightarrow> bool" where
  "creates (Invoke tag tgt method request) cb = (cb = InvokeCallback tag tgt method)"
| "creates (CallCommand tag tgt name args) cb =
     (case cb of SendPromiseCallback t m \<Rightarrow> t = tag | _ \<Rightarrow> False)"
| "creates (SendMessage sessionId domain method params c) cb = (cb = c)"
| "creates other cb = False"

section \<open>TargetBase: the constructor\<close>

text \<open>
  The constructor of \<^verbatim>\<open>TargetBase\<close>, as far as it decides between throwing
  and building a target, and where the target's router comes from. A
  connection is named by a number; \<^verbatim>\<open>null\<close> is \<open>None\<close>; a session id is
  falsy when it is the empty string. The global \<^verbatim>\<open>connectionFactory\<close> is taken
  to be set, as its declared type says. What follows the choice of the router
  (registering the session, building the agents and the dispatcher managers)
  does not throw and is left out here.
\<close>

datatype constructionError = EitherConnectionOrSessionIdButNotBoth

datatype routerOrigin = ParentRouter | NewRouter nat | NewRouterFromFactory

record targetBase =
  tbNeedsNodeJSPatching :: bool
  tbSessionId :: string
  tbRouter :: "routerOrigin option"

definition targetBaseConstructor ::
  "bool \<Rightarrow> targetBase option \<Rightarrow> string \<Rightarrow> nat option \<Rightarrow> constructionError + targetBase" where
  "targetBaseConstructor needsPatching parentTarget sessionId connection =
     (if (parentTarget = None \<and> connection \<noteq> None)
         \<or> (parentTarget = None \<and> sessionId \<noteq> [])
         \<or> (connection \<noteq> None \<and> sessionId \<noteq> [])
      then Inl EitherConnectionOrSessionIdButNotBoth
      else
        Inr \<lparr> tbNeedsNodeJSPatching = needsPatching, tbSessionId = sessionId,
              tbRouter =
                Some (case parentTarget of
                        None \<Rightarrow>
                          (case connection of
                             Some c \<Rightarrow> NewRouter c
                           | None \<Rightarrow> NewRouterFromFactory)
                      | Some parent \<Rightarrow>
                          if sessionId \<noteq> [] \<and> tbRouter parent \<noteq> None then ParentRouter
                          else (case connection of
                                  Some c \<Rightarrow> NewRouter c
                                | None \<Rightarrow> NewRouterFromFactory)) \<rparr>)"

text \<open>
  The shapes of arguments that claim C4 calls valid, in the claim's words: a
  parent target with a session id, or a connection (without a session id), or
  neither of the two for the root target, which has no parent.
\<close>

definition claimedValidShape :: "targetBase option \<Rightarrow> string \<Rightarrow> nat option \<Rightarrow> bool" where
  "claimedValidShape parentTarget sessionId connection =
     ((parentTarget \<noteq> None \<and> sessionId \<noteq> [] \<and> connection = None)
      \<or> (connection \<noteq> None \<and> sessionId = [])
      \<or> (parentTarget = None \<and> sessionId = [] \<and> connection = None))"

definition liveParent :: targetBase where
  "liveParent =
     \<lparr> tbNeedsNodeJSPatching = False, tbSessionId = [],
       tbRouter = Some NewRouterFromFactory \<rparr>"

section \<open>DispatcherManager\<close>

text \<open>
  A dispatcher is a handler object: its identity and its properties by name,
  each with what a call of it does as far as \<^verbatim>\<open>dispatch\<close> can tell (it returns,
  or it throws). An event message carries either plain parameters or, when
  its flag \<^verbatim>\<open>compress\<close> is set, a string. \<open>inflate\<close> stands for
  \<^verbatim>\<open>base64js.toByteArray\<close>, \<^verbatim>\<open>Zlib.Inflate\<close> and \<^verbatim>\<open>JSON.parse\<close>, which are
  not part of the sources at hand; it gives \<open>None\<close> when one of them throws.
  The outcome of \<^verbatim>\<open>dispatch\<close> lists the handlers called, in the order of the
  calls and each with its argument, the protocol warnings, and the exception
  that ended the call, if any.
\<close>

datatype handlerOutcome = Returns | Throws

record dispatcher =
  dispatcherId :: nat
  handlers :: "(string \<times> handlerOutcome) list"

datatype eventPayload = Plain "obj option" | Compressed string

record eventMessage =
  evMethod :: string
  evPayload :: eventPayload

record dispatcherManager =
  eventArgs :: "(string \<times> string list) list"
  dispatchers :: "dispatcher list"

datatype dispatchError = DecompressionFailed | HandlerThrew nat

record dispatchOutcome =
  called :: "(nat \<times> obj) list"
  warned :: "string list"
  thrown :: "dispatchError option"

text \<open>
  \<^verbatim>\<open>InspectorBackend.registerEvent\<close> on the table of the event's domain: the
  key is the qualified name of the event.
\<close>

definition registerEvent ::
  "string \<Rightarrow> string list \<Rightarrow> (string \<times> string list) list \<Rightarrow> (string \<times> string list) list" where
  "registerEvent eventName params eventParameterNames =
     AList.update eventName params eventParameterNames"

definition newDispatcherManager :: "(string \<times> string list) list \<Rightarrow> dispatcherManager" where
  "newDispatcherManager ea = \<lparr> eventArgs = ea, dispatchers = [] \<rparr>"

definition addDomainDispatcher :: "dispatcherManager \<Rightarrow> dispatcher \<Rightarrow> dispatcherManager" where
  "addDomainDispatcher dm d = dm\<lparr>dispatchers := dispatchers dm @ [d]\<rparr>"

definition removeDomainDispatcher :: "dispatcherManager \<Rightarrow> dispatcher \<Rightarrow> dispatcherManager" where
  "removeDomainDispatcher dm d = dm\<lparr>dispatchers := remove1 d (dispatchers dm)\<rparr>"

text \<open>The loop of \<^verbatim>\<open>dispatch\<close> over the dispatchers; a handler that throws ends it.\<close>

fun callHandlers ::
  "string \<Rightarrow> obj \<Rightarrow> dispatcher list \<Rightarrow> (nat \<times> obj) list \<times> dispatchError option" where
  "callHandlers event messageParams [] = ([], None)"
| "callHandlers event messageParams (d # ds) =
     (case map_of (handlers d) event of
        None \<Rightarrow> callHandlers event messageParams ds
      | Some Throws \<Rightarrow> ([(dispatcherId d, messageParams)], Some (HandlerThrew (dispatcherId d)))
      | Some Returns \<Rightarrow>
          (let (cs, e) = callHandlers event messageParams ds
           in ((dispatcherId d, messageParams) # cs, e)))"

text \<open>
  The parameter object that the handlers get: the inflated payload of a
  compressed message, else a copy of \<^verbatim>\<open>params\<close> (the empty object when there
  are none).
\<close>

definition messageParamsOf :: "(string \<Rightarrow> obj option) \<Rightarrow> eventMessage \<Rightarrow> obj option" where
  "messageParamsOf inflate messageObject =
     (case evPayload messageObject of
        Compressed s \<Rightarrow> inflate s
      | Plain None \<Rightarrow> Some []
      | Plain (Some ps) \<Rightarrow> Some ps)"

definition dispatch ::
  "(string \<Rightarrow> obj option) \<Rightarrow> dispatcherManager \<Rightarrow> string \<Rightarrow> eventMessage \<Rightarrow> dispatchOutcome" where
  "dispatch inflate dm event messageObject =
     (if dispatchers dm = [] then \<lparr> called = [], warned = [], thrown = None \<rparr>
      else
        (case messageParamsOf inflate messageObject of
           None \<Rightarrow> \<lparr> called = [], warned = [], thrown = Some DecompressionFailed \<rparr>
         | Some messageParams \<Rightarrow>
             if map_of (eventArgs dm) (evMethod messageObject) = None
             then \<lparr> called = [], warned = [evMethod messageObject], thrown = None \<rparr>
             else
               (let (cs, e) = callHandlers event messageParams (dispatchers dm)
                in \<lparr> called = cs, warned = [], thrown = e \<rparr>)))"

definition implements :: "string \<Rightarrow> dispatcher \<Rightarrow> bool" where
  "implements event d = (map_of (handlers d) event \<noteq> None)"

definition fooHandlers :: "dispatcher list" where
  "fooHandlers =
     [\<lparr> dispatcherId = 1, handlers = [(''bar'', Returns)] \<rparr>,
      \<lparr> dispatcherId = 2, handlers = [(''baz'', Returns)] \<rparr>,
      \<lparr> dispatcherId = 3, handlers = [(''baz'', Throws), (''bar'', Returns)] \<rparr>]"

definition fooBar :: eventMessage where
  "fooBar = \<lparr> evMethod = ''Foo.bar'', evPayload = Plain (Some [(''x'', JNumber 1)]) \<rparr>"

definition fooBaz :: eventMessage where
  "fooBaz = \<lparr> evMethod = ''Foo.baz'', evPayload = Plain None \<rparr>"

definition fooEvents :: "(string \<times> string list) list" where
  "fooEvents = registerEvent ''Foo.baz'' [] (registerEvent ''Foo.bar'' [''x''] [])"

text \<open>
  Two handler objects with a property \<^verbatim>\<open>bar\<close>, the first of which throws
  when it is called; a compressed event, and a decoder that fails on every
  payload.
\<close>

definition barHandlers :: "dispatcher list" where
  "barHandlers =
     [\<lparr> dispatcherId = 1, handlers = [(''bar'', Throws)] \<rparr>,
      \<lparr> dispatcherId = 2, handlers = [(''bar'', Returns)] \<rparr>]"

definition fooBarCompressed :: eventMessage where
  "fooBarCompressed = \<lparr> evMethod = ''Foo.bar'', evPayload = Compressed ''%'' \<rparr>"

definition failingInflate :: "string \<Rightarrow> obj option" where
  "failingInflate payload = None"

section \<open>The undo stack of the DOM models\<close>

text \<open>
  \<^verbatim>\<open>DOMModelUndoStack\<close>, the one instance that every \<^verbatim>\<open>DOMModel\<close> reaches
  through \<^verbatim>\<open>DOMModelUndoStack.instance()\<close>. Models are compared by identity;
  \<open>'m\<close> is the type of their identities. \<^verbatim>\<open>_markUndoableState\<close> is an
  \<^verbatim>\<open>async\<close> function: a call runs up to its \<^verbatim>\<open>await\<close>, where it has called
  \<^verbatim>\<open>invoke_markUndoableState\<close> on the model's agent (recorded in
  \<open>backendCalls\<close>), and what follows the \<^verbatim>\<open>await\<close> runs in a later turn.
  \<open>markUndoableState\<close> is the part up to the \<^verbatim>\<open>await\<close>, \<open>suspended\<close> counts the
  calls that wait there, and \<open>resumeMarkUndoableState\<close> is the rest of one of
  them. The call \<^verbatim>\<open>this._lastModelWithMinorChange.markUndoableState()\<close> goes
  through \<^verbatim>\<open>DOMModel.markUndoableState\<close> back into \<^verbatim>\<open>_markUndoableState\<close> with
  \<^verbatim>\<open>minorChange = false\<close>: the recursive call.
\<close>

datatype backendCall = MarkUndoableStateCall

record 'm undoStack =
  stack :: "'m list"
  index :: nat
  lastModelWithMinorChange :: "'m option"
  backendCalls :: "('m \<times> backendCall) list"
  suspended :: nat

definition newUndoStack :: "'m undoStack" where
  "newUndoStack =
     \<lparr> stack = [], index = 0, lastModelWithMinorChange = None, backendCalls = [],
       suspended = 0 \<rparr>"

function markUndoableState :: "'m \<Rightarrow> bool \<Rightarrow> 'm undoStack \<Rightarrow> 'm undoStack" where
  "markUndoableState model minorChange u =
     (let u1 = (case lastModelWithMinorChange u of
                  None \<Rightarrow> u
                | Some l \<Rightarrow>
                    if model \<noteq> l
                    then (markUndoableState l False u)\<lparr>lastModelWithMinorChange := None\<rparr>
                    else u)
      in if minorChange \<and> lastModelWithMinorChange u1 = Some model then u1
         else
           (let u2 = u1\<lparr>stack := take (index u1) (stack u1) @ [model]\<rparr>;
                u3 = u2\<lparr>index := length (stack u2)\<rparr>
            in if minorChange then u3\<lparr>lastModelWithMinorChange := Some model\<rparr>
               else u3\<lparr>backendCalls := backendCalls u3 @ [(model, MarkUndoableStateCall)],
                       suspended := suspended u3 + 1\<rparr>))"
  by pat_completeness auto
termination
  by (relation "measure (\<lambda>(model, minorChange, u).
        if lastModelWithMinorChange u \<noteq> None \<and> lastModelWithMinorChange u \<noteq> Some model
        then 1 else 0)") auto

declare markUndoableState.simps [simp del]

definition resumeMarkUndoableState :: "'m undoStack \<Rightarrow> 'm undoStack" where
  "resumeMarkUndoableState u =
     (if suspended u = 0 then u
      else u\<lparr>lastModelWithMinorChange := None, suspended := suspended u - 1\<rparr>)"

text \<open>
  Three minor changes on the model \<open>a\<close>, then a major change on the model
  \<open>b\<close>, on a new stack.
\<close>

definition threeMinorOneMajor :: "'m \<Rightarrow> 'm \<Rightarrow> 'm undoStack" where
  "threeMinorOneMajor a b =
     markUndoableState b False
       (markUndoableState a True
          (markUndoableState a True
             (markUndoableState a True newUndoStack)))"

section \<open>Notions used to state the properties\<close>

text \<open>
  The ids of the messages handed to the connection, oldest first (every
  message that \<open>sendMessage\<close> hands over has an id).
\<close>

definition messageIdOf :: "message \<Rightarrow> int" where
  "messageIdOf m = (case msgId m of Present i \<Rightarrow> i | _ \<Rightarrow> 0)"

definition hasId :: "message \<Rightarrow> bool" where
  "hasId m = (case msgId m of Present i \<Rightarrow> True | _ \<Rightarrow> False)"

definition sentIds :: "world \<Rightarrow> int list" where
  "sentIds w = map messageIdOf (connectionSent w)"

text \<open>
  The id that the \<open>k\<close>-th call of \<^verbatim>\<open>_nextMessageId\<close> on a router returns
  (\<open>k = 1\<close> for the first call), and the ids of the first \<open>n\<close> calls.
\<close>

definition idOfCall :: "nat \<Rightarrow> int" where
  "idOfCall k = min (int k) doubleIntegerLimit"

definition idsOfCalls :: "nat \<Rightarrow> int list" where
  "idsOfCalls n = map idOfCall [1 ..< Suc n]"

text \<open>
  The invariant behind the message ids: after \<open>n\<close> calls of
  \<^verbatim>\<open>_nextMessageId\<close> the ids issued are those of the calls \<open>1, \<dots>, n\<close>, the
  counter holds the id of the call \<open>n + 1\<close>, and the messages handed to the
  connection have ids, which are some of the ids issued, in the order of
  issue.
\<close>

definition idState :: "int \<Rightarrow> int list \<Rightarrow> message list \<Rightarrow> bool" where
  "idState l ids sent =
     (l = idOfCall (Suc (length ids)) \<and> ids = idsOfCalls (length ids)
      \<and> list_all hasId sent \<and> subseq (map messageIdOf sent) ids)"

definition idInv :: "world \<Rightarrow> bool" where
  "idInv w = idState (lastMessageId w) (issuedIds w) (connectionSent w)"

text \<open>
  A router on which \<^verbatim>\<open>_nextMessageId\<close> was called \<open>n\<close> times since its
  construction.
\<close>

definition issueNext :: "world \<Rightarrow> world" where
  "issueNext w = snd (nextMessageId w)"

definition rootSessionIds :: "nat \<Rightarrow> string" where
  "rootSessionIds tgt = []"

definition afterIssuing :: "nat \<Rightarrow> world" where
  "afterIssuing n = (issueNext ^^ n) (newWorld ''DOM'' rootSessionIds)"

text \<open>
  The handler objects that \<^verbatim>\<open>dispatch\<close> gets to for an event, in terms of the
  list of handler objects: those that have the property, up to and including
  the first one whose call throws; and the exception of that call, if there
  is one.
\<close>

definition returnsFor :: "string \<Rightarrow> dispatcher \<Rightarrow> bool" where
  "returnsFor event d = (map_of (handlers d) event = Some Returns)"

definition reached :: "string \<Rightarrow> dispatcher list \<Rightarrow> dispatcher list" where
  "reached event ds =
     takeWhile (returnsFor event) (filter (implements event) ds)
       @ take 1 (dropWhile (returnsFor event) (filter (implements event) ds))"

definition firstThrowing :: "string \<Rightarrow> dispatcher list \<Rightarrow> dispatchError option" where
  "firstThrowing event ds =
     (case dropWhile (returnsFor event) (filter (implements event) ds) of
        [] \<Rightarrow> None
      | d # _ \<Rightarrow> Some (HandlerThrew (dispatcherId d)))"

text \<open>
  What the proxy loop of \<^verbatim>\<open>_onMessage\<close> may record for the message \<open>m\<close>: the
  message handed to a proxy connection, or the report that a proxy connection
  has no \<^verbatim>\<open>_onMessage\<close>.
\<close>

fun proxyPhaseEvent :: "message \<Rightarrow> event \<Rightarrow> bool" where
  "proxyPhaseEvent m (ProxyForwarded p m') = (m' = m)"
| "proxyPhaseEvent m (ProtocolErrorReported e m') = (e = ProxyWithoutOnMessage \<and> m' = m)"
| "proxyPhaseEvent m other = False"

text \<open>
  Where the router, the agent and the timer queue hold on to callbacks: the
  callback maps of the sessions, the cached messages of the agent, and the
  timers that will call a callback with an error. A callback that is in none
  of them can no longer be reached from the state.
\<close>

definition callbacksIn :: "(int \<times> callback \<times> string) list \<Rightarrow> callback list" where
  "callbacksIn cbs = map (\<lambda>(i, cb, m). cb) cbs"

fun timerCallbacks :: "timer \<Rightarrow> callback list" where
  "timerCallbacks (ConnectionErrorTimer cb m) = [cb]"
| "timerCallbacks (UnregisterSessionErrorTimer cb m) = [cb]"
| "timerCallbacks PendingDispatchesTimer = []"

definition heldBySessions :: "(string \<times> session) list \<Rightarrow> callback list" where
  "heldBySessions ss = concat (map (\<lambda>(sid, s). callbacksIn (callbacks s)) ss)"

definition heldByCache :: "(string \<times> invokeMessage \<times> callback) list \<Rightarrow> callback list" where
  "heldByCache cm = map (\<lambda>(m, msg, cb). cb) cm"

definition heldByTimers :: "timer list \<Rightarrow> callback list" where
  "heldByTimers ts = concat (map timerCallbacks ts)"

definition storedCallbacks :: "world \<Rightarrow> callback list" where
  "storedCallbacks w =
     heldBySessions (sessions w) @ heldByCache (cachedMessages w) @ heldByTimers (timers w)"

fun isInvocationOf :: "callback \<Rightarrow> event \<Rightarrow> bool" where
  "isInvocationOf cb (Invoked c e r) = (c = cb)"
| "isInvocationOf cb other = False"

definition invocationsIn :: "callback \<Rightarrow> event list \<Rightarrow> nat" where
  "invocationsIn cb evs = length (filter (isInvocationOf cb) evs)"

definition invocations :: "callback \<Rightarrow> world \<Rightarrow> nat" where
  "invocations cb w = invocationsIn cb (trace w)"

definition quiet :: "callback \<Rightarrow> nat \<Rightarrow> world \<Rightarrow> bool" where
  "quiet cb n w = (cb \<notin> set (storedCallbacks w) \<and> invocations cb w = n)"

text \<open>The request that \<open>sendMessage\<close> hands to the connection.\<close>

definition requestMessage :: "string \<Rightarrow> int \<Rightarrow> string \<Rightarrow> obj option \<Rightarrow> message" where
  "requestMessage sessionId i method params =
     \<lparr> msgSessionId = (if sessionId = [] then None else Some sessionId),
       msgId = Present i, msgError = None, msgResult = None,
       msgDomain = None, msgMethod = Present method, msgParams = params \<rparr>"

text \<open>
  The requests for a method that are outstanding: the entries for the method
  in the callback maps of the sessions.
\<close>

definition outstandingIn :: "string \<Rightarrow> (string \<times> session) list \<Rightarrow> (int \<times> callback \<times> string) list" where
  "outstandingIn method ss =
     concat (map (\<lambda>(sid, s). filter (\<lambda>(i, cb, m). m = method) (callbacks s)) ss)"

definition outstanding :: "string \<Rightarrow> world \<Rightarrow> (int \<times> callback \<times> string) list" where
  "outstanding method w = outstandingIn method (sessions w)"

text \<open>
  The messages for a method among those handed to the connection, oldest
  first. \<open>requests domain method x\<close>: the call \<open>x\<close> asks the router or an
  agent of the domain to send a request for the method. \<open>cacheKeyed\<close>: every
  cached message is kept under its own method, which is how \<^verbatim>\<open>_invoke\<close>
  stores it. \<open>settled domain method sent w\<close>: no message is cached for the
  method, and the messages for it that were handed to the connection are
  \<open>sent\<close>.
\<close>

definition sentFor :: "string \<Rightarrow> world \<Rightarrow> message list" where
  "sentFor method w = filter (\<lambda>m. msgMethod m = Present method) (connectionSent w)"



definition settled :: "string \<Rightarrow> string \<Rightarrow> message list \<Rightarrow> world \<Rightarrow> bool" where
  "settled domain method sent w =
     (agentDomain w = domain
      \<and> list_all (\<lambda>(k, msg, cb). imMethod msg = k \<and> k \<noteq> method) (cachedMessages w)
      \<and> sentFor method w = sent)"

text \<open>Worlds and values used as concrete inputs.\<close>

definition rootTarget :: targetRef where
  "rootTarget = \<lparr> targetId = 0, needsNodeJSPatching = False \<rparr>"

definition liveWorld :: world where
  "liveWorld = registerSession rootTarget [] None (newWorld ''DOM'' rootSessionIds)"

definition auditsProxy :: proxyRef where
  "auditsProxy = \<lparr> proxyId = 9, proxyHasOnMessage = True \<rparr>"

definition proxiedWorld :: world where
  "proxiedWorld =
     sendMessage ''audits'' ''DOM'' ''DOM.enable'' None (ExternalCallback 0)
       (registerSession rootTarget ''audits'' (Some auditsProxy) liveWorld)"

definition threeSends :: "op list" where
  "threeSends =
     [RegisterSession rootTarget [] None,
      SendMessage [] ''DOM'' ''DOM.enable'' None (ExternalCallback 0),
      SendMessage ''gone'' ''DOM'' ''DOM.enable'' None (ExternalCallback 1),
      SendMessage [] ''CSS'' ''CSS.enable'' None (ExternalCallback 2)]"


definition pendingWorld :: world where
  "pendingWorld = sendMessage [] ''DOM'' ''DOM.enable'' None (ExternalCallback 0) liveWorld"

definition otherTarget :: targetRef where
  "otherTarget = \<lparr> targetId = 1, needsNodeJSPatching = False \<rparr>"

definition numberX :: commandParameter where
  "numberX = \<lparr> paramName = ''x'', paramType = ''number'', paramOptional = False \<rparr>"

definition response :: "string option \<Rightarrow> int \<Rightarrow> message" where
  "response sessionId i =
     \<lparr> msgSessionId = sessionId, msgId = Present i, msgError = None, msgResult = Some [],
       msgDomain = None, msgMethod = Absent, msgParams = None \<rparr>"



section \<open>Facts about qualified names\<close>

lemma split_dot_nonempty: "split_dot s \<noteq> []"
  by (induction s) (auto split: list.splits)

lemma split_dot_no_dot: "CHR ''.'' \<notin> set s \<Longrightarrow> split_dot s = [s]"
  by (induction s) auto

lemma split_dot_hd: "hd (split_dot s) = takeWhile notDot s"
  by (induction s) (auto simp: notDot_def split_dot_nonempty split: list.splits)

lemma split_dot_first_dot:
  "CHR ''.'' \<in> set s \<Longrightarrow>
     split_dot s = takeWhile notDot s # split_dot (tl (dropWhile notDot s))"
  by (induction s) (auto simp: notDot_def split_dot_nonempty split: list.splits)

lemma splitQualifiedName_general:
  assumes "CHR ''.'' \<in> set s"
  shows "splitQualifiedName s =
           (takeWhile notDot s, Some (takeWhile notDot (tl (dropWhile notDot s))))"
proof -
  let ?rest = "tl (dropWhile notDot s)"
  obtain seg segs where r: "split_dot ?rest = seg # segs"
    using split_dot_nonempty [of ?rest] by (cases "split_dot ?rest") auto
  have "seg = takeWhile notDot ?rest"
    using split_dot_hd [of ?rest] r by simp
  then show ?thesis
    using split_dot_first_dot [OF assms] r by (simp add: splitQualifiedName_def)
qed

lemma dropWhile_notDot_dot:
  "CHR ''.'' \<in> set s \<Longrightarrow> dropWhile notDot s = CHR ''.'' # tl (dropWhile notDot s)"
  by (induction s) (auto simp: notDot_def)

lemma count_dots_split:
  "CHR ''.'' \<in> set s \<Longrightarrow>
     count_list s CHR ''.'' = Suc (count_list (tl (dropWhile notDot s)) CHR ''.'')"
  by (induction s) (auto simp: notDot_def)

lemma takeWhile_notDot_all:
  "takeWhile notDot s = s \<longleftrightarrow> CHR ''.'' \<notin> set s"
  by (induction s) (auto simp: notDot_def)

lemma count_list_zero_iff: "count_list s c = 0 \<longleftrightarrow> c \<notin> set s"
  by (induction s) auto

text \<open>
  C8, as amended. For a string with at least one dot the domain is the part
  before the first dot and the unqualified name is the segment between the
  first and the second dot (the whole remainder when there is no second dot);
  \<open>qualifyName\<close> of the two parts gives the string back exactly when the string
  has one dot and no more.
\<close>

theorem splitQualifiedName_roundtrip_one_dot:
  assumes "CHR ''.'' \<in> set s"
  shows "fst (splitQualifiedName s) = takeWhile notDot s
       \<and> snd (splitQualifiedName s) = Some (takeWhile notDot (tl (dropWhile notDot s)))
       \<and> ((case snd (splitQualifiedName s) of
               None \<Rightarrow> False
             | Some name \<Rightarrow> qualifyName (fst (splitQualifiedName s)) name = s)
            \<longleftrightarrow> count_list s CHR ''.'' = 1)"
proof -
  let ?rest = "tl (dropWhile notDot s)"
  have g: "splitQualifiedName s = (takeWhile notDot s, Some (takeWhile notDot ?rest))"
    by (rule splitQualifiedName_general [OF assms])
  have s_eq: "s = takeWhile notDot s @ ''.'' @ ?rest"
  proof -
    have "s = takeWhile notDot s @ dropWhile notDot s" by simp
    also have "dropWhile notDot s = ''.'' @ ?rest"
      using dropWhile_notDot_dot [OF assms] by simp
    finally show ?thesis .
  qed
  have "qualifyName (takeWhile notDot s) (takeWhile notDot ?rest) = s
          \<longleftrightarrow> takeWhile notDot ?rest = ?rest"
  proof -
    have "qualifyName (takeWhile notDot s) (takeWhile notDot ?rest) = s
            \<longleftrightarrow> takeWhile notDot s @ ''.'' @ takeWhile notDot ?rest
                = takeWhile notDot s @ ''.'' @ ?rest"
      using s_eq by (simp add: qualifyName_def)
    then show ?thesis by simp
  qed
  also have "\<dots> \<longleftrightarrow> CHR ''.'' \<notin> set ?rest"
    by (rule takeWhile_notDot_all)
  also have "\<dots> \<longleftrightarrow> count_list s CHR ''.'' = 1"
    using count_dots_split [OF assms] count_list_zero_iff [of ?rest "CHR ''.''"] by simp
  finally show ?thesis using g by simp
qed

theorem splitQualifiedName_roundtrip_one_dot_witness:
  "CHR ''.'' \<in> set ''DOM.getBoxModel''
   \<and> splitQualifiedName ''DOM.getBoxModel'' = (''DOM'', Some ''getBoxModel'')
   \<and> qualifyName ''DOM'' ''getBoxModel'' = ''DOM.getBoxModel''
   \<and> count_list ''DOM.getBoxModel'' CHR ''.'' = 1"
proof -
  have h: "CHR ''.'' \<in> set ''DOM.getBoxModel''" by simp
  show ?thesis
    using splitQualifiedName_roundtrip_one_dot [OF h]
    by (simp add: splitQualifiedName_def qualifyName_def notDot_def)
qed

text \<open>
  C8 as stated fails on a string with two dots: \<^verbatim>\<open>'A.b.c'\<close> contains a dot,
  its split is \<^verbatim>\<open>['A', 'b']\<close> (not \<^verbatim>\<open>'b.c'\<close>), and qualifying the two parts
  gives \<^verbatim>\<open>'A.b'\<close>.
\<close>

theorem splitQualifiedName_two_dots_counterexample:
  "CHR ''.'' \<in> set ''A.b.c''
   \<and> splitQualifiedName ''A.b.c'' = (''A'', Some ''b'')
   \<and> qualifyName ''A'' ''b'' \<noteq> ''A.b.c''"
  by (simp add: splitQualifiedName_def qualifyName_def)


section \<open>Facts about command validation\<close>

lemma prepareLoop_no_args:
  "\<exists>p \<in> set ps. \<not> paramOptional p \<Longrightarrow>
     prepareLoop method parameters ps [] params hasParams
       = Inl (InvalidNumberOfArguments method parameters)"
  by (induction ps) auto

text \<open>
  C7. A command whose registered schema has a parameter that is not optional,
  called with no argument: the call returns normally, and all it does is to
  write the validation error to the console and to resolve its promise with
  \<^verbatim>\<open>null\<close>. Every other part of the state is as before: no message id is
  taken, nothing is handed to the connection, no callback is stored.
\<close>

theorem command_without_arguments_rejected:
  assumes "map_of (commands w) name = Some parameters"
      and "\<exists>p \<in> set parameters. \<not> paramOptional p"
  shows "callCommand tag tgt name [] w =
           Inr (w\<lparr>console := console w @
                      [ConsoleErrorValidation
                         (InvalidNumberOfArguments (qualifyName (agentDomain w) name) parameters)],
                  trace := trace w @ [Resolved tag (ResolvedValue JNull)]\<rparr>)"
  using assms
  by (simp add: callCommand_def sendMessageToBackendPromise_def prepareParameters_def
        prepareLoop_no_args)

theorem command_without_arguments_rejected_witness:
  "callCommand 5 0 ''setX'' [] (registerCommand ''setX'' [numberX] [] liveWorld) =
     Inr ((registerCommand ''setX'' [numberX] [] liveWorld)
            \<lparr>console := [ConsoleErrorValidation (InvalidNumberOfArguments ''DOM.setX'' [numberX])],
              trace := [Resolved 5 (ResolvedValue JNull)]\<rparr>)
   \<and> connectionSent (registerCommand ''setX'' [numberX] [] liveWorld) = []"
proof -
  let ?w = "registerCommand ''setX'' [numberX] [] liveWorld"
  have h1: "map_of (commands ?w) ''setX'' = Some [numberX]"
    by (simp add: registerCommand_def liveWorld_def registerSession_def newWorld_def)
  have h2: "\<exists>p \<in> set [numberX]. \<not> paramOptional p"
    by (simp add: numberX_def)
  show ?thesis
    using command_without_arguments_rejected [OF h1 h2, of 5 0]
    by (simp add: registerCommand_def liveWorld_def registerSession_def newWorld_def
          qualifyName_def)
qed

section \<open>Facts about the router\<close>

lemma sendMessage_unknown_session:
  "map_of (sessions w) sessionId = None \<Longrightarrow>
     sendMessage sessionId domain method params cb w =
       w\<lparr>lastMessageId := jsIncrement (lastMessageId w),
         issuedIds := issuedIds w @ [lastMessageId w],
         pendingResponsesCount := jsIncrement (pendingResponsesCount w),
         pendingLongPollingMessageIds :=
           (if method \<in> set LongPollingMethods
            then setAdd (lastMessageId w) (pendingLongPollingMessageIds w)
            else pendingLongPollingMessageIds w)\<rparr>"
  by (simp add: sendMessage_def nextMessageId_def Let_def)

text \<open>
  C3. The code at a concrete input: a router whose only session is the root
  session \<^verbatim>\<open>''\<close>, with nothing pending, is asked to send
  \<^verbatim>\<open>DOM.enable\<close> to the session \<^verbatim>\<open>'gone'\<close>. Nothing is handed to the
  connection, no callback is called or scheduled and the session map is as
  before, but the call has taken the message id 1 and has raised the count of
  pending responses from 0 to 1, so the router now reports an outstanding
  request for which no response can ever be matched. For the long polling
  method \<^verbatim>\<open>CSS.takeComputedStyleUpdates\<close> the id is added to the long polling
  ids as well.
\<close>

theorem sendMessage_unregistered_session_counts_pending:
  "map_of (sessions liveWorld) ''gone'' = None
   \<and> pendingResponsesCount liveWorld = 0
   \<and> lastMessageId liveWorld = 1
   \<and> hasOutstandingNonLongPollingRequests liveWorld = False
   \<and> connectionSent
        (sendMessage ''gone'' ''DOM'' ''DOM.enable'' None (ExternalCallback 0) liveWorld) = []
   \<and> trace (sendMessage ''gone'' ''DOM'' ''DOM.enable'' None (ExternalCallback 0) liveWorld) = []
   \<and> timers (sendMessage ''gone'' ''DOM'' ''DOM.enable'' None (ExternalCallback 0) liveWorld) = []
   \<and> sessions (sendMessage ''gone'' ''DOM'' ''DOM.enable'' None (ExternalCallback 0) liveWorld)
        = sessions liveWorld
   \<and> pendingResponsesCount
        (sendMessage ''gone'' ''DOM'' ''DOM.enable'' None (ExternalCallback 0) liveWorld) = 1
   \<and> lastMessageId
        (sendMessage ''gone'' ''DOM'' ''DOM.enable'' None (ExternalCallback 0) liveWorld) = 2
   \<and> hasOutstandingNonLongPollingRequests
        (sendMessage ''gone'' ''DOM'' ''DOM.enable'' None (ExternalCallback 0) liveWorld) = True
   \<and> pendingLongPollingMessageIds liveWorld = []
   \<and> pendingLongPollingMessageIds
        (sendMessage ''gone'' ''CSS'' ''CSS.takeComputedStyleUpdates'' None (ExternalCallback 0)
           liveWorld) = [1]"
proof -
  have n: "map_of (sessions liveWorld) ''gone'' = None"
    by (simp add: liveWorld_def registerSession_def newWorld_def)
  show ?thesis
    by (simp add: sendMessage_unknown_session [OF n] n LongPollingMethods_def
          hasOutstandingNonLongPollingRequests_def setAdd_def)
       (simp add: liveWorld_def registerSession_def newWorld_def jsIncrement_def
          doubleIntegerLimit_def)
qed

lemma forwardToProxies_events:
  "list_all (proxyPhaseEvent m) (fst (forwardToProxies m ss))"
  by (induction ss) (auto split: option.splits prod.splits)

text \<open>
  C10. A message whose session id (the empty string when it has none) names a
  session with a proxy connection: all that \<^verbatim>\<open>_onMessage\<close> does is the proxy
  loop. The state afterwards is the state before with the records of that
  loop added to the trace; these are hand-overs to proxy connections and
  reports of a proxy without \<^verbatim>\<open>_onMessage\<close>, so no callback is called, no
  event reaches a target, and the callback maps, the count of pending
  responses and the long polling ids are as before.
\<close>

theorem proxied_session_not_processed:
  assumes "map_of (sessions w) (case msgSessionId m of None \<Rightarrow> [] | Some sid \<Rightarrow> sid) = Some s"
      and "proxyConnection s \<noteq> None"
  shows "onMessage patch (Some m) w =
           w\<lparr>trace := trace w @ fst (forwardToProxies m (map snd (sessions w)))\<rparr>
       \<and> list_all (proxyPhaseEvent m) (fst (forwardToProxies m (map snd (sessions w))))"
proof -
  obtain evs suppr where f: "forwardToProxies m (map snd (sessions w)) = (evs, suppr)"
    by force
  show ?thesis
    using assms forwardToProxies_events [of m "map snd (sessions w)"]
    by (simp add: onMessage_def f)
qed


theorem proxied_session_not_processed_witness:
  "map_of (sessions proxiedWorld) ''audits''
     = Some \<lparr> target = rootTarget,
              callbacks = [(1, ExternalCallback 0, ''DOM.enable'')],
              proxyConnection = Some auditsProxy \<rparr>
   \<and> onMessage id (Some (response (Some ''audits'') 1)) proxiedWorld
     = proxiedWorld\<lparr>trace := [ProxyForwarded 9 (response (Some ''audits'') 1)]\<rparr>
   \<and> pendingResponsesCount proxiedWorld = 1"
proof -
  let ?s = "\<lparr> target = rootTarget, callbacks = [(1, ExternalCallback 0, ''DOM.enable'')],
              proxyConnection = Some auditsProxy \<rparr>"
  have ev: "proxiedWorld =
      \<lparr> connectionSent =
          [\<lparr> msgSessionId = Some ''audits'', msgId = Present 1, msgError = None,
             msgResult = None, msgDomain = None, msgMethod = Present ''DOM.enable'',
             msgParams = None \<rparr>],
        lastMessageId = 2, issuedIds = [1],
        pendingResponsesCount = 1, pendingLongPollingMessageIds = [],
        sessions =
          [([], \<lparr> target = rootTarget, callbacks = [], proxyConnection = None \<rparr>),
           (''audits'', ?s)],
        pendingScripts = [], timers = [], console = [], trace = [],
        suppressRequestErrors = False, agentDomain = ''DOM'',
        targetSessionId = rootSessionIds, targetRouter = (\<lambda>tgt. True),
        commands = [], replyArgs = [], cachedMessages = [], unresolvedMessages = [] \<rparr>"
    by (simp add: proxiedWorld_def liveWorld_def registerSession_def newWorld_def
          sendMessage_def nextMessageId_def LongPollingMethods_def jsIncrement_def
          doubleIntegerLimit_def)
  have h1: "map_of (sessions proxiedWorld)
              (case msgSessionId (response (Some ''audits'') 1) of None \<Rightarrow> [] | Some sid \<Rightarrow> sid)
            = Some ?s"
    by (simp add: ev response_def)
  have h2: "proxyConnection ?s \<noteq> None" by simp
  show ?thesis
    using proxied_session_not_processed [OF h1 h2, of id] h1
    by (simp add: ev response_def auditsProxy_def)
qed

section \<open>Facts about message ids\<close>

lemma idInv_update [simp]:
  "idInv (w\<lparr>pendingResponsesCount := a1\<rparr>) = idInv w"
  "idInv (w\<lparr>pendingLongPollingMessageIds := a2\<rparr>) = idInv w"
  "idInv (w\<lparr>sessions := a3\<rparr>) = idInv w"
  "idInv (w\<lparr>pendingScripts := a4\<rparr>) = idInv w"
  "idInv (w\<lparr>timers := a5\<rparr>) = idInv w"
  "idInv (w\<lparr>console := a6\<rparr>) = idInv w"
  "idInv (w\<lparr>trace := a7\<rparr>) = idInv w"
  "idInv (w\<lparr>suppressRequestErrors := a8\<rparr>) = idInv w"
  "idInv (w\<lparr>agentDomain := a9\<rparr>) = idInv w"
  "idInv (w\<lparr>targetSessionId := a10\<rparr>) = idInv w"
  "idInv (w\<lparr>targetRouter := a11\<rparr>) = idInv w"
  "idInv (w\<lparr>commands := a12\<rparr>) = idInv w"
  "idInv (w\<lparr>cachedMessages := a13\<rparr>) = idInv w"
  "idInv (w\<lparr>unresolvedMessages := a14\<rparr>) = idInv w"
  "idInv (w\<lparr>replyArgs := a15\<rparr>) = idInv w"
  by (simp_all add: idInv_def)

lemma doubleIntegerLimit_positive: "1 < doubleIntegerLimit"
  by (simp add: doubleIntegerLimit_def)

lemma jsIncrement_idOfCall: "jsIncrement (idOfCall k) = idOfCall (Suc k)"
  using doubleIntegerLimit_positive by (simp add: jsIncrement_def idOfCall_def min_def)

lemma idsOfCalls_Suc: "idsOfCalls (Suc n) = idsOfCalls n @ [idOfCall (Suc n)]"
  by (simp add: idsOfCalls_def)

lemma length_idsOfCalls [simp]: "length (idsOfCalls n) = n"
  by (simp add: idsOfCalls_def del: upt_Suc)

lemma idState_issue:
  assumes "idState l ids sent"
  shows "idState (jsIncrement l) (ids @ [l]) sent"
proof -
  have l: "l = idOfCall (Suc (length ids))" and ids: "idsOfCalls (length ids) = ids"
    and h: "list_all hasId sent" and sub: "subseq (map messageIdOf sent) ids"
    using assms by (simp_all add: idState_def)
  have "idsOfCalls (length (ids @ [l])) = ids @ [l]"
    by (simp add: idsOfCalls_Suc ids l)
  moreover have "jsIncrement l = idOfCall (Suc (length (ids @ [l])))"
    by (simp add: l jsIncrement_idOfCall)
  moreover have "subseq (map messageIdOf sent) (ids @ [l])"
    using sub by (rule list_emb_prefix)
  ultimately show ?thesis
    using h unfolding idState_def by simp
qed

lemma idState_send:
  assumes "idState l ids sent" and "msgId m = Present l"
  shows "idState (jsIncrement l) (ids @ [l]) (sent @ [m])"
proof -
  have a: "idState (jsIncrement l) (ids @ [l]) sent"
    by (rule idState_issue [OF assms(1)])
  have sub: "subseq (map messageIdOf sent) ids"
    using assms(1) by (simp add: idState_def)
  have a1: "jsIncrement l = idOfCall (Suc (length (ids @ [l])))"
    and a2: "ids @ [l] = idsOfCalls (length (ids @ [l]))"
    and a3: "list_all hasId sent"
    using a unfolding idState_def by blast+
  have b: "list_all hasId (sent @ [m])"
    using a3 assms(2) by (simp add: hasId_def)
  have c: "map messageIdOf (sent @ [m]) = map messageIdOf sent @ [l]"
    using assms(2) by (simp add: messageIdOf_def)
  have d: "subseq (map messageIdOf (sent @ [m])) (ids @ [l])"
    unfolding c using sub by (rule list_emb_append_mono) simp
  show ?thesis
    unfolding idState_def using a1 a2 b d by blast
qed

lemma sendMessage_idInv:
  "idInv w \<Longrightarrow> idInv (sendMessage sessionId domain method params cb w)"
  by (simp add: sendMessage_def nextMessageId_def Let_def idState_issue idState_send
        idInv_def split: option.splits)

lemma sendDestructed_idInv: "idInv w \<Longrightarrow> idInv (sendDestructed a w)"
  by (cases a) (simp add: sendDestructed_def sendMessage_idInv)

lemma sendCachedMessage_idInv: "idInv w \<Longrightarrow> idInv (sendCachedMessage cb tgt method w)"
  by (simp add: sendCachedMessage_def Let_def sendDestructed_idInv split: option.splits)

lemma commandCallback_idInv: "idInv w \<Longrightarrow> idInv (fst (commandCallback tag method e r w))"
  by (simp add: commandCallback_def Let_def split: option.splits)

lemma invokeCallbackBody_idInv:
  "idInv w \<Longrightarrow> idInv (invokeCallbackBody tag tgt method e r w)"
  by (simp add: invokeCallbackBody_def Let_def sendCachedMessage_idInv split: option.splits)

lemma invokeCallback_idInv: "idInv w \<Longrightarrow> idInv (fst (invokeCallback cb e r w))"
  by (simp add: invokeCallback_def Let_def commandCallback_idInv invokeCallbackBody_idInv
      split: callback.splits)

lemma invoke_idInv: "idInv w \<Longrightarrow> idInv (invoke tag tgt method request w)"
  by (simp add: invoke_def Let_def sendDestructed_idInv sendMessage_idInv
      split: option.splits)

lemma sendMessageToBackendPromise_idInv:
  "idInv w \<Longrightarrow> idInv (sendMessageToBackendPromise tag tgt method ps args w)"
  by (simp add: sendMessageToBackendPromise_def Let_def sendMessage_idInv
      split: sum.splits)

lemma unregisterSession_idInv: "idInv w \<Longrightarrow> idInv (unregisterSession sid w)"
  by (simp add: unregisterSession_def split: option.splits)

lemma registerSession_idInv: "idInv w \<Longrightarrow> idInv (registerSession t sid p w)"
  by (simp add: registerSession_def Let_def)

lemma handleResponse_idInv: "idInv w \<Longrightarrow> idInv (handleResponse sid s i mo suppr w)"
  by (simp add: handleResponse_def Let_def reportProtocolError_def
        deprecatedRunAfterPendingDispatches_def invokeCallback_idInv
      split: option.splits prod.splits)

lemma onMessage_idInv:
  assumes "idInv w"
  shows "idInv (onMessage patch incoming w)"
proof (cases incoming)
  case None
  then show ?thesis using assms by (simp add: onMessage_def)
next
  case (Some m)
  obtain evs suppr where f: "forwardToProxies m (map snd (sessions w)) = (evs, suppr)"
    by force
  show ?thesis
    using assms
    by (simp add: onMessage_def Some f Let_def reportProtocolError_def handleResponse_idInv
        split: option.splits field.splits)
qed

lemma runNextTimer_idInv: "idInv w \<Longrightarrow> idInv (runNextTimer w)"
  by (simp add: runNextTimer_def Let_def executeAfterPendingDispatches_def
        deprecatedRunAfterPendingDispatches_def invokeCallback_idInv
      split: list.splits timer.splits)

lemma step_idInv: "idInv w \<Longrightarrow> idInv (step patch x w)"
  by (cases x)
     (simp_all add: invoke_idInv registerCommand_def callCommand_def
        sendMessageToBackendPromise_idInv sendMessage_idInv onMessage_idInv
        registerSession_idInv unregisterSession_idInv runNextTimer_idInv
        deprecatedRunAfterPendingDispatches_def dispose_def
       split: option.splits sum.splits)

lemma run_idInv: "idInv w \<Longrightarrow> idInv (run patch xs w)"
  by (induction xs arbitrary: w) (simp_all add: step_idInv)

lemma newWorld_idInv: "idInv (newWorld domain sids)"
  using doubleIntegerLimit_positive
  by (simp add: newWorld_def idState_def idInv_def idOfCall_def idsOfCalls_def)

lemma sent_have_ids: "list_all hasId sent \<Longrightarrow> map msgId sent = map Present (map messageIdOf sent)"
  by (induction sent) (auto simp: hasId_def messageIdOf_def split: field.splits)

lemma idsOfCalls_below_limit:
  assumes "int n \<le> doubleIntegerLimit"
  shows "idsOfCalls n = map int [1 ..< Suc n]"
  unfolding idsOfCalls_def
proof (rule map_cong [OF refl])
  fix k assume "k \<in> set [1 ..< Suc n]"
  then have "k \<le> n" by auto
  then have "int k \<le> int n" by simp
  then have "int k \<le> doubleIntegerLimit" using assms by linarith
  then show "idOfCall k = int k" by (simp add: idOfCall_def)
qed

lemma idsOfCalls_strict:
  assumes "int n \<le> doubleIntegerLimit"
  shows "sorted_wrt (<) (idsOfCalls n)"
  by (simp add: idsOfCalls_below_limit [OF assms] sorted_wrt_map del: upt_Suc)

lemma idsOfCalls_sorted: "sorted (idsOfCalls n)"
proof -
  have "sorted_wrt (\<lambda>a b. idOfCall a \<le> idOfCall b) [1 ..< Suc n]"
    by (rule sorted_wrt_mono_rel [of _ "(<)"]) (auto simp: idOfCall_def simp del: upt_Suc)
  then show ?thesis
    by (simp add: idsOfCalls_def sorted_wrt_map del: upt_Suc)
qed

lemma idsOfCalls_last:
  assumes "doubleIntegerLimit \<le> int n"
  shows "last (idsOfCalls n) = doubleIntegerLimit"
proof -
  obtain k where n: "n = Suc k"
    using assms doubleIntegerLimit_positive by (cases n) auto
  show ?thesis
    using assms by (simp add: n idsOfCalls_Suc idOfCall_def)
qed

lemma subseq_sorted_wrt: "subseq xs ys \<Longrightarrow> sorted_wrt P ys \<Longrightarrow> sorted_wrt P xs"
proof (induction rule: list_emb.induct)
  case (list_emb_Nil ys)
  then show ?case by simp
next
  case (list_emb_Cons xs ys y)
  then show ?case by simp
next
  case (list_emb_Cons2 x y xs ys)
  have "P x z" if zin: "z \<in> set xs" for z
  proof -
    obtain z' where "z' \<in> set ys" and "z = z'"
      using list_emb_set [OF list_emb_Cons2(2) zin] by blast
    then show ?thesis
      using list_emb_Cons2(1,4) by simp
  qed
  then show ?case
    using list_emb_Cons2 by simp
qed

text \<open>
  C2, as amended. Take any sequence of calls on a router from its
  construction on, and let \<open>n\<close> be the number of ids that \<^verbatim>\<open>_nextMessageId\<close>
  has returned in it. The first id returned is 1. The \<open>k\<close>-th id returned is
  the smaller of \<open>k\<close> and \<open>2\<^sup>5\<^sup>3\<close>, and the next call returns the smaller of
  \<open>n + 1\<close> and \<open>2\<^sup>5\<^sup>3\<close>. So with fewer than \<open>2\<^sup>5\<^sup>3\<close> ids returned the next id is
  above all of them; with at most \<open>2\<^sup>5\<^sup>3\<close> ids returned they increase strictly,
  none occurs twice, and the messages handed to the connection carry strictly
  increasing ids; from then on every call returns \<open>2\<^sup>5\<^sup>3\<close> again. At any time
  the ids returned never decrease, and the ids of the messages handed to the
  connection are ids that were returned, in the order in which they were
  returned.
\<close>

theorem message_ids_increase_up_to_limit:
  fixes patch :: "message \<Rightarrow> message" and xs :: "op list"
    and domain :: string and sessionIds :: "nat \<Rightarrow> string"
  defines "w \<equiv> run patch xs (newWorld domain sessionIds)"
  shows "fst (nextMessageId (newWorld domain sessionIds)) = 1
   \<and> issuedIds w = idsOfCalls (length (issuedIds w))
   \<and> fst (nextMessageId w) = idOfCall (Suc (length (issuedIds w)))
   \<and> issuedIds (snd (nextMessageId w)) = issuedIds w @ [fst (nextMessageId w)]
   \<and> (int (length (issuedIds w)) < doubleIntegerLimit
        \<longrightarrow> list_all (\<lambda>i. i < fst (nextMessageId w)) (issuedIds w))
   \<and> (int (length (issuedIds w)) \<le> doubleIntegerLimit
        \<longrightarrow> sorted_wrt (<) (issuedIds w) \<and> distinct (issuedIds w)
            \<and> sorted_wrt (<) (sentIds w))
   \<and> (doubleIntegerLimit \<le> int (length (issuedIds w))
        \<longrightarrow> last (issuedIds w) = doubleIntegerLimit
            \<and> fst (nextMessageId w) = doubleIntegerLimit)
   \<and> sorted (issuedIds w)
   \<and> map msgId (connectionSent w) = map Present (sentIds w)
   \<and> subseq (sentIds w) (issuedIds w)"
proof -
  let ?n = "length (issuedIds w)"
  have inv: "idState (lastMessageId w) (issuedIds w) (connectionSent w)"
    using run_idInv [OF newWorld_idInv, of patch xs domain sessionIds]
    by (simp add: idInv_def w_def)
  have l: "lastMessageId w = idOfCall (Suc ?n)" and ids: "idsOfCalls ?n = issuedIds w"
    and h: "list_all hasId (connectionSent w)" and sub: "subseq (sentIds w) (issuedIds w)"
    using inv by (simp_all add: idState_def sentIds_def)
  have below: "list_all (\<lambda>i. i < lastMessageId w) (issuedIds w)"
    if lt: "int ?n < doubleIntegerLimit"
  proof -
    define n where "n = length (issuedIds w)"
    have e1: "issuedIds w = map int [1 ..< Suc n]"
      using idsOfCalls_below_limit [of n] lt ids by (simp add: n_def)
    have e2: "lastMessageId w = int n + 1"
      using lt by (simp add: l idOfCall_def n_def)
    have "\<forall>i \<in> set (map int [1 ..< Suc n]). i < int n + 1"
      by auto
    then show ?thesis
      unfolding e1 e2 by (simp only: list_all_iff)
  qed
  have strict: "sorted_wrt (<) (issuedIds w)" if "int ?n \<le> doubleIntegerLimit"
    using idsOfCalls_strict [OF that] ids by simp
  have sstrict: "sorted_wrt (<) (sentIds w)" if "int ?n \<le> doubleIntegerLimit"
    using subseq_sorted_wrt [OF sub strict [OF that]] .
  have dist: "distinct (issuedIds w)" if "int ?n \<le> doubleIntegerLimit"
    using strict [OF that] by (simp add: strict_sorted_iff)
  have stuck: "last (issuedIds w) = doubleIntegerLimit \<and> lastMessageId w = doubleIntegerLimit"
    if "doubleIntegerLimit \<le> int ?n"
    using idsOfCalls_last [OF that] ids that by (simp add: l idOfCall_def)
  have srt: "sorted (issuedIds w)"
    using idsOfCalls_sorted [of ?n] ids by simp
  have sent: "map msgId (connectionSent w) = map Present (sentIds w)"
    using sent_have_ids [OF h] by (simp add: sentIds_def)
  have first: "fst (nextMessageId (newWorld domain sessionIds)) = 1"
    by (simp add: nextMessageId_def newWorld_def)
  show ?thesis
    using first ids l below strict sstrict dist stuck srt sent sub
    by (simp add: nextMessageId_def)
qed

theorem message_ids_increase_up_to_limit_witness:
  "issuedIds (run id threeSends (newWorld ''DOM'' rootSessionIds)) = [1, 2, 3]
   \<and> int (length (issuedIds (run id threeSends (newWorld ''DOM'' rootSessionIds))))
       < doubleIntegerLimit
   \<and> fst (nextMessageId (run id threeSends (newWorld ''DOM'' rootSessionIds))) = 4
   \<and> sentIds (run id threeSends (newWorld ''DOM'' rootSessionIds)) = [1, 3]
   \<and> sorted_wrt (<) (sentIds (run id threeSends (newWorld ''DOM'' rootSessionIds)))
   \<and> distinct (issuedIds (run id threeSends (newWorld ''DOM'' rootSessionIds)))"
proof -
  have ev: "issuedIds (run id threeSends (newWorld ''DOM'' rootSessionIds)) = [1, 2, 3]
            \<and> sentIds (run id threeSends (newWorld ''DOM'' rootSessionIds)) = [1, 3]
            \<and> lastMessageId (run id threeSends (newWorld ''DOM'' rootSessionIds)) = 4"
    by (simp add: threeSends_def newWorld_def registerSession_def sendMessage_def
          nextMessageId_def LongPollingMethods_def sentIds_def messageIdOf_def
          jsIncrement_def doubleIntegerLimit_def)
  have lim: "int (length (issuedIds (run id threeSends (newWorld ''DOM'' rootSessionIds))))
               \<le> doubleIntegerLimit"
    by (simp add: ev doubleIntegerLimit_def)
  have "sorted_wrt (<) (sentIds (run id threeSends (newWorld ''DOM'' rootSessionIds)))
        \<and> distinct (issuedIds (run id threeSends (newWorld ''DOM'' rootSessionIds)))"
    using message_ids_increase_up_to_limit
            [where patch = id and xs = threeSends and domain = "''DOM''"
               and sessionIds = rootSessionIds] lim
    by blast
  then show ?thesis
    using ev by (simp add: nextMessageId_def doubleIntegerLimit_def)
qed

lemma afterIssuing_counter: "lastMessageId (afterIssuing n) = idOfCall (Suc n)"
proof (induction n)
  case 0
  show ?case
    using doubleIntegerLimit_positive by (simp add: afterIssuing_def newWorld_def idOfCall_def)
next
  case (Suc n)
  have "lastMessageId (afterIssuing (Suc n)) = jsIncrement (lastMessageId (afterIssuing n))"
    by (simp add: afterIssuing_def issueNext_def nextMessageId_def)
  then show ?case
    by (simp add: Suc jsIncrement_idOfCall)
qed

text \<open>
  C2 as stated fails on a router on which \<^verbatim>\<open>_nextMessageId\<close> was called
  \<open>2\<^sup>5\<^sup>3 - 1\<close> times: the counter is \<open>2\<^sup>5\<^sup>3\<close>, the next call returns \<open>2\<^sup>5\<^sup>3\<close> and
  leaves the counter where it is (\<^verbatim>\<open>2 ** 53 + 1 === 2 ** 53\<close> for JavaScript
  numbers), and the call after that returns \<open>2\<^sup>5\<^sup>3\<close> a second time.
\<close>

theorem message_id_returned_twice_counterexample:
  "fst (nextMessageId (afterIssuing (2 ^ 53 - 1))) = 2 ^ 53
   \<and> fst (nextMessageId (afterIssuing (2 ^ 53))) = 2 ^ 53"
proof -
  have a: "fst (nextMessageId (afterIssuing n)) = idOfCall (Suc n)" for n
    using afterIssuing_counter [of n] by (simp add: nextMessageId_def)
  have "idOfCall (Suc (2 ^ 53 - 1)) = 2 ^ 53" "idOfCall (Suc (2 ^ 53)) = 2 ^ 53"
    by (simp_all add: idOfCall_def doubleIntegerLimit_def)
  then show ?thesis
    by (simp only: a)
qed

section \<open>Facts about the constructor of TargetBase\<close>

text \<open>
  C4, as amended. The constructor throws exactly when there is no parent
  target but a connection or a session id, or when there are both a
  connection and a session id. So a connection without a session id is
  accepted with a parent target and refused without one; neither of the two
  is accepted, with or without a parent target; a parent target with a
  session id and no connection is accepted; a connection together with a
  session id is always refused.
\<close>

theorem construction_throws_iff:
  "isl (targetBaseConstructor needsPatching parentTarget sessionId connection)
     = ((parentTarget = None \<and> \<not> (connection = None \<and> sessionId = []))
        \<or> (connection \<noteq> None \<and> sessionId \<noteq> []))
   \<and> isl (targetBaseConstructor needsPatching (Some parent) [] (Some c)) = False
   \<and> isl (targetBaseConstructor needsPatching None [] (Some c)) = True
   \<and> isl (targetBaseConstructor needsPatching parentTarget [] None) = False
   \<and> isl (targetBaseConstructor needsPatching (Some parent) (x # xs) None) = False
   \<and> isl (targetBaseConstructor needsPatching parentTarget (x # xs) (Some c)) = True"
  by (auto simp: targetBaseConstructor_def)

theorem construction_throws_iff_witness:
  "targetBaseConstructor False (Some liveParent) ''s1'' None
     = Inr \<lparr> tbNeedsNodeJSPatching = False, tbSessionId = ''s1'', tbRouter = Some ParentRouter \<rparr>
   \<and> targetBaseConstructor False (Some liveParent) [] (Some 7)
     = Inr \<lparr> tbNeedsNodeJSPatching = False, tbSessionId = [], tbRouter = Some (NewRouter 7) \<rparr>
   \<and> targetBaseConstructor False None [] None
     = Inr \<lparr> tbNeedsNodeJSPatching = False, tbSessionId = [],
             tbRouter = Some NewRouterFromFactory \<rparr>
   \<and> isl (targetBaseConstructor False None ''s1'' None)
   \<and> isl (targetBaseConstructor False (Some liveParent) ''s1'' (Some 7))"
  using construction_throws_iff [of False None "''s1''" None liveParent 7 "CHR ''s''" "''1''"]
    construction_throws_iff [of False "Some liveParent" "''s1''" "Some 7" liveParent 7
      "CHR ''s''" "''1''"]
  by (simp add: targetBaseConstructor_def liveParent_def)

text \<open>
  C4 as stated fails for a connection without a session id and without a
  parent target: the claim counts these arguments as valid, and the
  constructor throws.
\<close>

theorem construction_connection_without_parent_counterexample:
  "claimedValidShape None [] (Some 7)
   \<and> isl (targetBaseConstructor False None [] (Some 7))"
  by (simp add: claimedValidShape_def targetBaseConstructor_def)

section \<open>Facts about event dispatch\<close>

lemma dispatchers_add_all:
  "dispatchers (foldl addDomainDispatcher dm ds) = dispatchers dm @ ds"
  by (induction ds arbitrary: dm) (simp_all add: addDomainDispatcher_def)

lemma eventArgs_add_all: "eventArgs (foldl addDomainDispatcher dm ds) = eventArgs dm"
  by (induction ds arbitrary: dm) (simp_all add: addDomainDispatcher_def)

lemma callHandlers_reached:
  "callHandlers event ps ds
     = (map (\<lambda>d. (dispatcherId d, ps)) (reached event ds), firstThrowing event ds)"
proof (induction ds)
  case Nil
  show ?case by (simp add: reached_def firstThrowing_def)
next
  case (Cons d ds)
  show ?case
  proof (cases "map_of (handlers d) event")
    case None
    then show ?thesis
      using Cons by (simp add: reached_def firstThrowing_def implements_def)
  next
    case (Some out)
    then show ?thesis
      using Cons
      by (cases out) (simp_all add: reached_def firstThrowing_def implements_def returnsFor_def)
  qed
qed

lemma reached_all_return:
  assumes "\<forall>d \<in> set ds. map_of (handlers d) event \<noteq> Some Throws"
  shows "reached event ds = filter (implements event) ds \<and> firstThrowing event ds = None"
proof -
  have "\<forall>d \<in> set (filter (implements event) ds). returnsFor event d"
  proof
    fix d assume d: "d \<in> set (filter (implements event) ds)"
    then obtain out where "map_of (handlers d) event = Some out"
      by (auto simp: implements_def)
    then show "returnsFor event d"
      using assms d by (cases out) (auto simp: returnsFor_def)
  qed
  then have t: "takeWhile (returnsFor event) (filter (implements event) ds)
               = filter (implements event) ds"
    and d: "dropWhile (returnsFor event) (filter (implements event) ds) = []"
    by simp_all
  show ?thesis
    unfolding reached_def firstThrowing_def t d by simp
qed

lemma reached_prefix: "prefix (reached event ds) (filter (implements event) ds)"
proof -
  let ?xs = "filter (implements event) ds"
  have "prefix (takeWhile (returnsFor event) ?xs @ take 1 (dropWhile (returnsFor event) ?xs))
          (takeWhile (returnsFor event) ?xs @ dropWhile (returnsFor event) ?xs)"
    by (simp only: same_prefix_prefix take_is_prefix)
  then show ?thesis
    by (simp add: reached_def)
qed

text \<open>
  C5, as amended. A dispatcher manager to which the handler objects \<open>ds\<close>
  were added in this order gets an event that is registered: the qualified
  method of the message is a key of the domain's table of event parameter
  names, which is how \<^verbatim>\<open>registerEvent\<close> enters an event. With no handler
  object \<^verbatim>\<open>dispatch\<close> does nothing. Otherwise, when the payload of a compressed
  message cannot be decoded, \<^verbatim>\<open>dispatch\<close> throws before it calls any handler.
  Otherwise it calls the handler objects that have a property of the event's
  unqualified name, in the order in which they were added and each with the
  same parameter object, up to and including the first one whose call
  throws, and that exception ends the call of \<^verbatim>\<open>dispatch\<close>: the handler objects
  after it are not called. When none of them throws, all of them are called,
  and \<^verbatim>\<open>dispatch\<close> ends normally. It reports nothing in either case. A manager
  with no handler object does nothing on any message, and does not throw.
\<close>

theorem dispatch_calls_handlers_until_one_throws:
  assumes "map_of ea (evMethod messageObject) \<noteq> None"
  shows "dispatch inflate (foldl addDomainDispatcher (newDispatcherManager ea) ds)
           event messageObject
         = (if ds = [] then \<lparr> called = [], warned = [], thrown = None \<rparr>
            else
              (case messageParamsOf inflate messageObject of
                 None \<Rightarrow> \<lparr> called = [], warned = [], thrown = Some DecompressionFailed \<rparr>
               | Some messageParams \<Rightarrow>
                   \<lparr> called = map (\<lambda>d. (dispatcherId d, messageParams)) (reached event ds),
                     warned = [], thrown = firstThrowing event ds \<rparr>))
       \<and> prefix (reached event ds) (filter (implements event) ds)
       \<and> ((\<forall>d \<in> set ds. map_of (handlers d) event \<noteq> Some Throws)
            \<longrightarrow> reached event ds = filter (implements event) ds
                \<and> firstThrowing event ds = None)
       \<and> dispatch inflate (newDispatcherManager ea) event anyMessage
         = \<lparr> called = [], warned = [], thrown = None \<rparr>"
proof -
  let ?dm = "foldl addDomainDispatcher (newDispatcherManager ea) ds"
  have d: "dispatchers ?dm = ds" and e: "eventArgs ?dm = ea"
    by (simp_all add: dispatchers_add_all eventArgs_add_all newDispatcherManager_def)
  have "dispatch inflate ?dm event messageObject
          = (if ds = [] then \<lparr> called = [], warned = [], thrown = None \<rparr>
             else
               (case messageParamsOf inflate messageObject of
                  None \<Rightarrow> \<lparr> called = [], warned = [], thrown = Some DecompressionFailed \<rparr>
                | Some messageParams \<Rightarrow>
                    \<lparr> called = map (\<lambda>d. (dispatcherId d, messageParams)) (reached event ds),
                      warned = [], thrown = firstThrowing event ds \<rparr>))"
  proof (cases "ds = []")
    case True
    then show ?thesis using d by (simp add: dispatch_def)
  next
    case False
    then show ?thesis
      using assms by (auto simp: dispatch_def d e callHandlers_reached split: option.splits)
  qed
  moreover have "dispatch inflate (newDispatcherManager ea) event anyMessage
                   = \<lparr> called = [], warned = [], thrown = None \<rparr>"
    by (simp add: dispatch_def newDispatcherManager_def)
  ultimately show ?thesis
    using reached_all_return [of ds event] reached_prefix [of event ds] by simp
qed

theorem dispatch_calls_handlers_until_one_throws_witness:
  "map_of fooEvents (evMethod fooBar) \<noteq> None
   \<and> map_of fooEvents (evMethod fooBaz) \<noteq> None
   \<and> dispatch failingInflate
       (foldl addDomainDispatcher (newDispatcherManager fooEvents) fooHandlers) ''bar'' fooBar
     = \<lparr> called = [(1, [(''x'', JNumber 1)]), (3, [(''x'', JNumber 1)])],
         warned = [], thrown = None \<rparr>
   \<and> dispatch failingInflate
       (foldl addDomainDispatcher (newDispatcherManager fooEvents) fooHandlers) ''baz'' fooBaz
     = \<lparr> called = [(2, []), (3, [])], warned = [], thrown = Some (HandlerThrew 3) \<rparr>"
proof -
  have h1: "map_of fooEvents (evMethod fooBar) \<noteq> None"
    by (simp add: fooEvents_def registerEvent_def fooBar_def)
  have h2: "map_of fooEvents (evMethod fooBaz) \<noteq> None"
    by (simp add: fooEvents_def registerEvent_def fooBaz_def)
  have r1: "reached ''bar'' fooHandlers
              = [\<lparr> dispatcherId = 1, handlers = [(''bar'', Returns)] \<rparr>,
                 \<lparr> dispatcherId = 3, handlers = [(''baz'', Throws), (''bar'', Returns)] \<rparr>]"
    "firstThrowing ''bar'' fooHandlers = None"
    by (simp_all add: reached_def firstThrowing_def fooHandlers_def implements_def
          returnsFor_def)
  have r2: "reached ''baz'' fooHandlers
              = [\<lparr> dispatcherId = 2, handlers = [(''baz'', Returns)] \<rparr>,
                 \<lparr> dispatcherId = 3, handlers = [(''baz'', Throws), (''bar'', Returns)] \<rparr>]"
    "firstThrowing ''baz'' fooHandlers = Some (HandlerThrew 3)"
    by (simp_all add: reached_def firstThrowing_def fooHandlers_def implements_def
          returnsFor_def)
  have ne: "fooHandlers \<noteq> []" by (simp add: fooHandlers_def)
  have p: "messageParamsOf failingInflate fooBar = Some [(''x'', JNumber 1)]"
    "messageParamsOf failingInflate fooBaz = Some []"
    by (simp_all add: messageParamsOf_def fooBar_def fooBaz_def)
  show ?thesis
    using dispatch_calls_handlers_until_one_throws [OF h1, of failingInflate fooHandlers "''bar''"]
      dispatch_calls_handlers_until_one_throws [OF h2, of failingInflate fooHandlers "''baz''"]
      h1 h2
    by (simp add: r1 r2 ne p)
qed

text \<open>
  C5 as stated fails when a handler throws: of two handler objects that both
  have the property \<^verbatim>\<open>bar\<close>, the first of which throws, \<^verbatim>\<open>dispatch\<close> calls the
  first only, and the exception ends it; the second is not called. It also
  fails when the payload of a compressed event cannot be decoded: then no
  handler object is called.
\<close>

theorem dispatch_throwing_handler_counterexample:
  "map_of fooEvents (evMethod fooBar) = Some [''x'']
   \<and> filter (implements ''bar'') barHandlers = barHandlers
   \<and> dispatch failingInflate
       (foldl addDomainDispatcher (newDispatcherManager fooEvents) barHandlers) ''bar'' fooBar
     = \<lparr> called = [(1, [(''x'', JNumber 1)])], warned = [], thrown = Some (HandlerThrew 1) \<rparr>
   \<and> map_of fooEvents (evMethod fooBarCompressed) = Some [''x'']
   \<and> dispatch failingInflate
       (foldl addDomainDispatcher (newDispatcherManager fooEvents) barHandlers)
       ''bar'' fooBarCompressed
     = \<lparr> called = [], warned = [], thrown = Some DecompressionFailed \<rparr>"
  by (simp add: fooEvents_def registerEvent_def fooBar_def fooBarCompressed_def barHandlers_def
        implements_def dispatch_def newDispatcherManager_def addDomainDispatcher_def
        messageParamsOf_def failingInflate_def)

section \<open>Facts about the undo stack\<close>

lemma markUndoableState_same_model:
  "lastModelWithMinorChange u = None \<or> lastModelWithMinorChange u = Some model \<Longrightarrow>
   markUndoableState model minorChange u =
     (if minorChange \<and> lastModelWithMinorChange u = Some model then u
      else
        (let st = take (index u) (stack u) @ [model]
         in if minorChange
            then u\<lparr>stack := st, index := length st, lastModelWithMinorChange := Some model\<rparr>
            else u\<lparr>stack := st, index := length st,
                   backendCalls := backendCalls u @ [(model, MarkUndoableStateCall)],
                   suspended := suspended u + 1\<rparr>))"
  by (subst markUndoableState.simps) (auto simp: Let_def)

lemma markUndoableState_switch:
  assumes "lastModelWithMinorChange u = Some l" and "model \<noteq> l"
  shows "markUndoableState model minorChange u =
           markUndoableState model minorChange
             ((markUndoableState l False u)\<lparr>lastModelWithMinorChange := None\<rparr>)"
proof -
  let ?x = "(markUndoableState l False u)\<lparr>lastModelWithMinorChange := None\<rparr>"
  have r: "markUndoableState model minorChange ?x =
             (let st = take (index ?x) (stack ?x) @ [model]
              in if minorChange
                 then ?x\<lparr>stack := st, index := length st,
                         lastModelWithMinorChange := Some model\<rparr>
                 else ?x\<lparr>stack := st, index := length st,
                         backendCalls := backendCalls ?x @ [(model, MarkUndoableStateCall)],
                         suspended := suspended ?x + 1\<rparr>)"
    by (simp add: markUndoableState_same_model)
  have l: "markUndoableState model minorChange u =
             (let st = take (index ?x) (stack ?x) @ [model]
              in if minorChange
                 then ?x\<lparr>stack := st, index := length st,
                         lastModelWithMinorChange := Some model\<rparr>
                 else ?x\<lparr>stack := st, index := length st,
                         backendCalls := backendCalls ?x @ [(model, MarkUndoableStateCall)],
                         suspended := suspended ?x + 1\<rparr>)"
    by (subst markUndoableState.simps) (simp add: assms Let_def)
  show ?thesis by (simp only: l r)
qed

lemma threeMinorOneMajor_state:
  assumes "a \<noteq> b"
  shows "threeMinorOneMajor a b
         = \<lparr> stack = [a, a, b], index = 3, lastModelWithMinorChange = None,
             backendCalls = [(a, MarkUndoableStateCall), (b, MarkUndoableStateCall)],
             suspended = 2 \<rparr>"
proof -
  let ?u1 = "\<lparr> stack = [a], index = 1, lastModelWithMinorChange = Some a,
               backendCalls = [], suspended = 0 \<rparr>"
  let ?u2 = "\<lparr> stack = [a, a], index = 2, lastModelWithMinorChange = Some a,
               backendCalls = [(a, MarkUndoableStateCall)], suspended = 1 \<rparr>"
  have s1: "markUndoableState a True newUndoStack = ?u1"
    by (simp add: markUndoableState_same_model newUndoStack_def)
  have s2: "markUndoableState a True ?u1 = ?u1"
    by (simp add: markUndoableState_same_model)
  have s3: "markUndoableState a False ?u1 = ?u2"
    by (simp add: markUndoableState_same_model)
  have "markUndoableState b False ?u1
        = markUndoableState b False
            ((markUndoableState a False ?u1)\<lparr>lastModelWithMinorChange := None\<rparr>)"
    using assms by (intro markUndoableState_switch) simp_all
  also have "\<dots> = \<lparr> stack = [a, a, b], index = 3, lastModelWithMinorChange = None,
             backendCalls = [(a, MarkUndoableStateCall), (b, MarkUndoableStateCall)],
             suspended = 2 \<rparr>"
    by (simp add: s3 markUndoableState_same_model)
  finally show ?thesis
    by (simp only: threeMinorOneMajor_def s1 s2)
qed

text \<open>
  C6, as amended. Three minor changes on a model \<open>a\<close> and then a major change
  on another model \<open>b\<close>, on an empty stack, leave three entries: the one
  entry of the minor changes of \<open>a\<close>, the major entry of \<open>a\<close> that the switch
  to \<open>b\<close> commits, and the major entry of \<open>b\<close>. The index is 3, past the last
  entry. The backend was asked to mark an undoable state for \<open>a\<close>, then for
  \<open>b\<close>, and the two calls that wait for the answers change neither the stack
  nor the index when they go on.
\<close>

theorem three_minor_then_major_leaves_three_entries:
  assumes "a \<noteq> b"
  shows "stack (threeMinorOneMajor a b) = [a, a, b]
       \<and> index (threeMinorOneMajor a b) = 3
       \<and> index (threeMinorOneMajor a b) = length (stack (threeMinorOneMajor a b))
       \<and> backendCalls (threeMinorOneMajor a b)
           = [(a, MarkUndoableStateCall), (b, MarkUndoableStateCall)]
       \<and> suspended (threeMinorOneMajor a b) = 2
       \<and> resumeMarkUndoableState (resumeMarkUndoableState (threeMinorOneMajor a b))
           = \<lparr> stack = [a, a, b], index = 3, lastModelWithMinorChange = None,
               backendCalls = [(a, MarkUndoableStateCall), (b, MarkUndoableStateCall)],
               suspended = 0 \<rparr>"
  by (simp add: threeMinorOneMajor_state [OF assms] resumeMarkUndoableState_def)

theorem three_minor_then_major_leaves_three_entries_witness:
  "(1::nat) \<noteq> 2
   \<and> stack (threeMinorOneMajor (1::nat) 2) = [1, 1, 2]
   \<and> index (threeMinorOneMajor (1::nat) 2) = 3"
proof -
  have h: "(1::nat) \<noteq> 2" by simp
  show ?thesis
    using three_minor_then_major_leaves_three_entries [OF h] by simp
qed

text \<open>
  C6 as stated fails: with the models 1 and 2 the stack has three entries
  after the four calls, not two.
\<close>

theorem three_minor_then_major_two_entries_counterexample:
  "length (stack (threeMinorOneMajor (1::nat) 2)) = 3
   \<and> stack (threeMinorOneMajor (1::nat) 2) \<noteq> [1, 2]"
proof -
  have h: "(1::nat) \<noteq> 2" by simp
  show ?thesis
    using threeMinorOneMajor_state [OF h] by simp
qed


section \<open>Facts about the callbacks that the state holds\<close>

lemma quiet_fields:
  "quiet x n w \<longleftrightarrow>
     x \<notin> set (heldBySessions (sessions w)) \<and> x \<notin> set (heldByCache (cachedMessages w))
     \<and> x \<notin> set (heldByTimers (timers w)) \<and> invocationsIn x (trace w) = n"
  by (auto simp: quiet_def storedCallbacks_def invocations_def)

lemma quiet_update [simp]:
  "quiet x n (w\<lparr>connectionSent := a0\<rparr>) = quiet x n w"
  "quiet x n (w\<lparr>lastMessageId := b0\<rparr>) = quiet x n w"
  "quiet x n (w\<lparr>issuedIds := c0\<rparr>) = quiet x n w"
  "quiet x n (w\<lparr>pendingResponsesCount := a1\<rparr>) = quiet x n w"
  "quiet x n (w\<lparr>pendingLongPollingMessageIds := a2\<rparr>) = quiet x n w"
  "quiet x n (w\<lparr>pendingScripts := a4\<rparr>) = quiet x n w"
  "quiet x n (w\<lparr>console := a6\<rparr>) = quiet x n w"
  "quiet x n (w\<lparr>suppressRequestErrors := a8\<rparr>) = quiet x n w"
  "quiet x n (w\<lparr>agentDomain := a9\<rparr>) = quiet x n w"
  "quiet x n (w\<lparr>targetSessionId := a10\<rparr>) = quiet x n w"
  "quiet x n (w\<lparr>targetRouter := a11\<rparr>) = quiet x n w"
  "quiet x n (w\<lparr>commands := a12\<rparr>) = quiet x n w"
  "quiet x n (w\<lparr>unresolvedMessages := a14\<rparr>) = quiet x n w"
  "quiet x n (w\<lparr>replyArgs := a15\<rparr>) = quiet x n w"
  by (simp_all add: quiet_fields)

lemma quiet_sessionsI:
  "quiet x n w \<Longrightarrow> (x \<in> set (heldBySessions ss) \<Longrightarrow> x \<in> set (heldBySessions (sessions w)))
     \<Longrightarrow> quiet x n (w\<lparr>sessions := ss\<rparr>)"
  by (auto simp: quiet_fields)

lemma quiet_cachedI:
  "quiet x n w \<Longrightarrow> (x \<in> set (heldByCache cm) \<Longrightarrow> x \<in> set (heldByCache (cachedMessages w)))
     \<Longrightarrow> quiet x n (w\<lparr>cachedMessages := cm\<rparr>)"
  by (auto simp: quiet_fields)

lemma quiet_timersI:
  "quiet x n w \<Longrightarrow> (x \<in> set (heldByTimers ts) \<Longrightarrow> x \<in> set (heldByTimers (timers w)))
     \<Longrightarrow> quiet x n (w\<lparr>timers := ts\<rparr>)"
  by (auto simp: quiet_fields)

lemma quiet_traceI:
  "quiet x n w \<Longrightarrow> invocationsIn x t = invocationsIn x (trace w)
     \<Longrightarrow> quiet x n (w\<lparr>trace := t\<rparr>)"
  by (auto simp: quiet_fields)

lemma invocationsIn_append [simp]:
  "invocationsIn x (t @ u) = invocationsIn x t + invocationsIn x u"
  by (simp add: invocationsIn_def)

lemma invocationsIn_Nil [simp]: "invocationsIn x [] = 0"
  by (simp add: invocationsIn_def)

lemma invocationsIn_Cons [simp]:
  "invocationsIn x (e # t) = (if isInvocationOf x e then 1 else 0) + invocationsIn x t"
  by (simp add: invocationsIn_def)

lemma set_update_subset: "set (AList.update k v al) \<subseteq> insert (k, v) (set al)"
  by (induction al) auto

lemma set_delete_subset: "set (AList.delete k al) \<subseteq> set al"
  by (induction al) auto

lemma image_update_subset:
  "f ` set (AList.update k v al) \<subseteq> insert (f (k, v)) (f ` set al)"
  using image_mono [OF set_update_subset [of k v al], of f] by simp

lemma image_delete_subset: "f ` set (AList.delete k al) \<subseteq> f ` set al"
  by (rule image_mono [OF set_delete_subset])

lemma callbacksIn_update:
  "x \<in> set (callbacksIn (AList.update i (c, m) cbs)) \<Longrightarrow> x = c \<or> x \<in> set (callbacksIn cbs)"
  using image_update_subset [of "\<lambda>(i, cb, m). cb" i "(c, m)" cbs]
  by (auto simp: callbacksIn_def)

lemma callbacksIn_delete:
  "x \<in> set (callbacksIn (AList.delete i cbs)) \<Longrightarrow> x \<in> set (callbacksIn cbs)"
  using image_delete_subset [of "\<lambda>(i, cb, m). cb" i cbs]
  by (auto simp: callbacksIn_def)

lemma callbacksIn_lookup:
  "map_of cbs i = Some (c, m) \<Longrightarrow> c \<in> set (callbacksIn cbs)"
  by (force simp: callbacksIn_def dest: map_of_SomeD)

lemma heldBySessions_update:
  "x \<in> set (heldBySessions (AList.update k s ss)) \<Longrightarrow>
     x \<in> set (callbacksIn (callbacks s)) \<or> x \<in> set (heldBySessions ss)"
  using set_update_subset [of k s ss] by (fastforce simp: heldBySessions_def)

lemma heldBySessions_delete:
  "x \<in> set (heldBySessions (AList.delete k ss)) \<Longrightarrow> x \<in> set (heldBySessions ss)"
  using set_delete_subset [of k ss] by (fastforce simp: heldBySessions_def)

lemma heldBySessions_lookup:
  "map_of ss k = Some s \<Longrightarrow> x \<in> set (callbacksIn (callbacks s)) \<Longrightarrow>
     x \<in> set (heldBySessions ss)"
  by (force simp: heldBySessions_def dest: map_of_SomeD)

lemma heldByCache_update:
  "x \<in> set (heldByCache (AList.update k (msg, c) cm)) \<Longrightarrow> x = c \<or> x \<in> set (heldByCache cm)"
  using image_update_subset [of "\<lambda>(m, msg, cb). cb" k "(msg, c)" cm]
  by (auto simp: heldByCache_def)

lemma heldByCache_delete:
  "x \<in> set (heldByCache (AList.delete k cm)) \<Longrightarrow> x \<in> set (heldByCache cm)"
  using image_delete_subset [of "\<lambda>(m, msg, cb). cb" k cm]
  by (auto simp: heldByCache_def)

lemma heldByCache_lookup:
  "map_of cm k = Some (msg, c) \<Longrightarrow> c \<in> set (heldByCache cm)"
  by (force simp: heldByCache_def dest: map_of_SomeD)

lemma heldByTimers_append [simp]:
  "heldByTimers (ts @ us) = heldByTimers ts @ heldByTimers us"
  by (simp add: heldByTimers_def)

lemma heldByTimers_Cons [simp]:
  "heldByTimers (t # ts) = timerCallbacks t @ heldByTimers ts"
  by (simp add: heldByTimers_def)

lemma heldByTimers_Nil [simp]: "heldByTimers [] = []"
  by (simp add: heldByTimers_def)

lemma heldByTimers_unregister:
  "heldByTimers (map (\<lambda>(i, cb, m). UnregisterSessionErrorTimer cb m) cbs) = callbacksIn cbs"
  by (induction cbs) (auto simp: callbacksIn_def)

lemma quiet_sendMessage:
  assumes "quiet x n w" and "x \<noteq> c"
  shows "quiet x n (sendMessage sid d m p c w)"
proof (cases "map_of (sessions w) sid")
  case None
  then show ?thesis using assms(1) by (simp add: sendMessage_unknown_session)
next
  case (Some s)
  have "x \<notin> set (callbacksIn (callbacks s))"
    using assms(1) heldBySessions_lookup [OF Some] by (auto simp: quiet_fields)
  then have "x \<notin> set (heldBySessions (AList.update sid
               (s\<lparr>callbacks := AList.update (lastMessageId w) (c, m) (callbacks s)\<rparr>)
               (sessions w)))"
    using assms by (auto simp: quiet_fields dest!: heldBySessions_update callbacksIn_update)
  then show ?thesis
    using assms(1) Some
    by (simp add: sendMessage_def nextMessageId_def Let_def quiet_fields)
qed

lemma quiet_sendDestructed:
  "quiet x n w \<Longrightarrow> x \<noteq> snd mc \<Longrightarrow> quiet x n (sendDestructed (destructMessage mc) w)"
  by (simp add: sendDestructed_def destructMessage_def quiet_sendMessage)


lemma quiet_sendCachedMessage:
  assumes "quiet x n w" and "x \<noteq> cb"
  shows "quiet x n (sendCachedMessage cb tgt method w)"
proof (cases "map_of (cachedMessages w) method")
  case None
  then show ?thesis using assms(1) by (simp add: sendCachedMessage_def)
next
  case (Some cached)
  obtain msg c where cached: "cached = (msg, c)" by (cases cached)
  have c: "x \<noteq> c"
    using heldByCache_lookup [of "cachedMessages w" "method" "msg" "c"] Some cached assms(1)
    by (auto simp: quiet_fields)
  show ?thesis
  proof (cases "targetRouter w tgt")
    case False
    then show ?thesis
      using assms Some
      by (simp add: sendCachedMessage_def quiet_fields)
  next
    case True
    let ?w' = "w\<lparr>unresolvedMessages := AList.delete method (unresolvedMessages w)\<rparr>"
    let ?w'' = "sendDestructed (destructMessage cached) ?w'"
    have q: "quiet x n ?w''"
      using assms(1) c cached by (intro quiet_sendDestructed) simp_all
    have "quiet x n (?w''\<lparr>unresolvedMessages :=
                              AList.update method 1 (unresolvedMessages ?w''),
                            cachedMessages := AList.delete method (cachedMessages ?w'')\<rparr>)"
      using q by (intro quiet_cachedI) (auto dest: heldByCache_delete)
    then show ?thesis
      using True Some by (simp add: sendCachedMessage_def Let_def)
  qed
qed

lemma quiet_commandCallback:
  "quiet x n w \<Longrightarrow> quiet x n (fst (commandCallback tag method e r w))"
  by (simp add: commandCallback_def Let_def quiet_fields split: option.splits)

lemma quiet_invokeCallbackBody:
  assumes "quiet x n w" and "x \<noteq> InvokeCallback tag tgt method"
  shows "quiet x n (invokeCallbackBody tag tgt method e r w)"
proof -
  let ?w1 = "case e of
               None \<Rightarrow> w
             | Some er \<Rightarrow>
                 if loggedErrorCode w er
                 then w\<lparr>console := console w @ [ConsoleWarnRequestFailed method er]\<rparr>
                 else w"
  let ?w2 = "if method \<in> set debouncedMethods
             then sendCachedMessage (InvokeCallback tag tgt method) tgt method ?w1
             else ?w1"
  have q1: "quiet x n ?w1"
    using assms(1) by (simp split: option.splits)
  have q2: "quiet x n ?w2"
    using q1 assms(2) by (simp add: quiet_sendCachedMessage)
  have "quiet x n (?w2\<lparr>trace := trace ?w2 @
          [Resolved tag (ResolvedResponse (case r of None \<Rightarrow> [] | Some rr \<Rightarrow> rr)
             (map_option errMessage e))]\<rparr>)"
    using q2 by (rule quiet_traceI) simp
  then show ?thesis
    by (simp add: invokeCallbackBody_def Let_def)
qed

lemma quiet_invokeCallback:
  assumes "quiet x n w" and "x \<noteq> cb"
  shows "quiet x n (fst (invokeCallback cb e r w))"
proof -
  let ?w = "w\<lparr>trace := trace w @ [Invoked cb e r]\<rparr>"
  have q: "quiet x n ?w"
    using assms by (intro quiet_traceI) auto
  show ?thesis
    using q assms(2)
    by (cases cb)
       (simp_all add: invokeCallback_def Let_def quiet_commandCallback quiet_invokeCallbackBody)
qed

lemma quiet_handleResponse:
  assumes "quiet x n w" and "map_of (sessions w) sid = Some s"
  shows "quiet x n (handleResponse sid s i mo suppr w)"
proof -
  let ?w2 = "w\<lparr>sessions := AList.update sid (s\<lparr>callbacks := AList.delete i (callbacks s)\<rparr>)
                              (sessions w)\<rparr>"
  have ns: "x \<notin> set (callbacksIn (callbacks s))"
    using assms heldBySessions_lookup [of "sessions w" sid s x] by (auto simp: quiet_fields)
  have q2: "quiet x n ?w2"
    using assms(1)
  proof (rule quiet_sessionsI)
    assume "x \<in> set (heldBySessions (AList.update sid
               (s\<lparr>callbacks := AList.delete i (callbacks s)\<rparr>) (sessions w)))"
    then show "x \<in> set (heldBySessions (sessions w))"
      using ns by (auto dest!: heldBySessions_update callbacksIn_delete)
  qed
  show ?thesis
  proof (cases "map_of (callbacks s) i")
    case None
    then show ?thesis
      using q2 by (simp add: handleResponse_def Let_def reportProtocolError_def quiet_fields)
  next
    case (Some cbm)
    obtain cb m where cbm: "cbm = (cb, m)" by (cases cbm)
    have "cb \<in> set (callbacksIn (callbacks s))"
      using Some cbm by (auto intro: callbacksIn_lookup)
    then have ne: "x \<noteq> cb" using ns by auto
    let ?w3 = "fst (invokeCallback cb (msgError mo) (msgResult mo) ?w2)"
    have q3: "quiet x n ?w3"
      by (rule quiet_invokeCallback [OF q2 ne])
    let ?w4 = "?w3\<lparr>pendingResponsesCount := jsDecrement (pendingResponsesCount ?w3),
                    pendingLongPollingMessageIds :=
                      removeAll i (pendingLongPollingMessageIds ?w3)\<rparr>"
    have q4: "quiet x n ?w4" using q3 by simp
    have q5: "quiet x n (deprecatedRunAfterPendingDispatches None ?w4)"
      using q4 by (simp add: deprecatedRunAfterPendingDispatches_def quiet_fields)
    show ?thesis
      using q3 q4 q5 Some cbm
      by (simp add: handleResponse_def Let_def)
qed
qed

lemma quiet_trace_append_other:
  "quiet x n w \<Longrightarrow> invocationsIn x evs = 0 \<Longrightarrow> quiet x n (w\<lparr>trace := trace w @ evs\<rparr>)"
  by (simp add: quiet_fields)

lemma invocationsIn_proxy_phase:
  "list_all (proxyPhaseEvent m) evs \<Longrightarrow> invocationsIn x evs = 0"
proof (induction evs)
  case Nil
  then show ?case by simp
next
  case (Cons e evs)
  then show ?case by (cases e) simp_all
qed

lemma invocationsIn_ScriptRun: "invocationsIn x (map ScriptRun scs) = 0"
  by (induction scs) simp_all

lemma quiet_onMessage:
  assumes "quiet x n w"
  shows "quiet x n (onMessage patch incoming w)"
proof (cases incoming)
  case None
  then show ?thesis using assms by (simp add: onMessage_def)
next
  case (Some m)
  obtain evs suppr where f: "forwardToProxies m (map snd (sessions w)) = (evs, suppr)"
    by force
  have "invocationsIn x evs = 0"
    using forwardToProxies_events [of m "map snd (sessions w)"] f
    by (auto intro: invocationsIn_proxy_phase)
  then have q1: "quiet x n (w\<lparr>trace := trace w @ evs\<rparr>)"
    using assms by (rule quiet_trace_append_other [rotated])
  let ?sid = "case msgSessionId m of None \<Rightarrow> [] | Some sid \<Rightarrow> sid"
  show ?thesis
  proof (cases "map_of (sessions w) ?sid")
    case None
    then show ?thesis
      using q1 by (simp add: onMessage_def Some f Let_def reportProtocolError_def quiet_fields)
  next
    case s: (Some s)
    have h: "\<And>mo b. quiet x n (handleResponse ?sid s i mo b (w\<lparr>trace := trace w @ evs\<rparr>))"
      for i
      using s by (intro quiet_handleResponse [OF q1]) simp
    show ?thesis
      using q1 h s
      by (simp add: onMessage_def Some f Let_def reportProtocolError_def quiet_fields
          split: option.splits field.splits)
  qed
qed

lemma quiet_unregisterSession:
  "quiet x n w \<Longrightarrow> quiet x n (unregisterSession sid w)"
  by (auto simp: unregisterSession_def quiet_fields heldByTimers_unregister
      dest: heldBySessions_delete heldBySessions_lookup split: option.splits)

lemma quiet_registerSession:
  "quiet x n w \<Longrightarrow> quiet x n (registerSession t sid p w)"
  by (auto simp: registerSession_def Let_def quiet_fields callbacksIn_def
      dest!: heldBySessions_update)

lemma quiet_runNextTimer:
  assumes "quiet x n w"
  shows "quiet x n (runNextTimer w)"
proof (cases "timers w")
  case Nil
  then show ?thesis using assms by (simp add: runNextTimer_def)
next
  case (Cons t ts)
  have q1: "quiet x n (w\<lparr>timers := ts\<rparr>)"
    using assms Cons by (simp add: quiet_fields)
  show ?thesis
  proof (cases t)
    case (ConnectionErrorTimer cb meth)
    then have "x \<noteq> cb" using assms Cons by (auto simp: quiet_fields)
    then show ?thesis
      using q1 Cons ConnectionErrorTimer
      by (simp add: runNextTimer_def Let_def quiet_invokeCallback)
  next
    case (UnregisterSessionErrorTimer cb meth)
    then have "x \<noteq> cb" using assms Cons by (auto simp: quiet_fields)
    then show ?thesis
      using q1 Cons UnregisterSessionErrorTimer
      by (simp add: runNextTimer_def Let_def quiet_invokeCallback)
  next
    case PendingDispatchesTimer
    then show ?thesis
      using q1 Cons
      by (simp add: runNextTimer_def Let_def executeAfterPendingDispatches_def
            deprecatedRunAfterPendingDispatches_def quiet_fields invocationsIn_ScriptRun)
  qed
qed

lemma quiet_invoke:
  assumes "quiet x n w" and "x \<noteq> InvokeCallback tag tgt method"
  shows "quiet x n (invoke tag tgt method request w)"
proof -
  let ?message = "\<lparr> imSessionId = targetSessionId w tgt, imDomain = agentDomain w,
                     imMethod = method, imParams = request \<rparr>"
  let ?cb = "InvokeCallback tag tgt method"
  have a: "quiet x n (w\<lparr>timers := timers w @ [ConnectionErrorTimer ?cb method]\<rparr>)"
    using assms by (simp add: quiet_fields)
  have b: "quiet x n (sendDestructed (destructMessage (?message, ?cb))
             (w\<lparr>unresolvedMessages := AList.update method 1 (unresolvedMessages w)\<rparr>))"
    using assms by (intro quiet_sendDestructed) simp_all
  have c: "quiet x n (w\<lparr>cachedMessages :=
             AList.update method (?message, ?cb) (cachedMessages w)\<rparr>)"
    using assms by (intro quiet_cachedI) (auto dest: heldByCache_update)
  have d: "quiet x n (sendMessage (targetSessionId w tgt) (agentDomain w) method request ?cb w)"
    using assms by (rule quiet_sendMessage)
  have e: "quiet x n ((sendDestructed (destructMessage cached) w)
             \<lparr>cachedMessages := AList.update method (?message, ?cb)
                 (cachedMessages (sendDestructed (destructMessage cached) w))\<rparr>)"
    if "map_of (cachedMessages w) method = Some cached" for cached
  proof -
    obtain msg c where cached: "cached = (msg, c)" by (cases cached)
    have "x \<noteq> c"
      using heldByCache_lookup [of "cachedMessages w" "method" "msg" "c"] that cached assms(1)
      by (auto simp: quiet_fields)
    then have "quiet x n (sendDestructed (destructMessage cached) w)"
      using assms(1) cached by (intro quiet_sendDestructed) simp_all
    then show ?thesis
      using assms(2) by (intro quiet_cachedI) (auto dest: heldByCache_update)
  qed
  show ?thesis
    using a b c d e
    by (simp add: invoke_def Let_def split: option.splits)
qed

lemma quiet_sendMessageToBackendPromise:
  assumes "quiet x n w" and "x \<noteq> SendPromiseCallback tag method"
  shows "quiet x n (sendMessageToBackendPromise tag tgt method ps args w)"
proof (cases "prepareParameters method ps args")
  case (Inl e)
  then show ?thesis
    using assms(1) by (simp add: sendMessageToBackendPromise_def quiet_fields)
next
  case (Inr params)
  have "quiet x n (sendMessage (targetSessionId w tgt) (agentDomain w) method params
          (SendPromiseCallback tag method)
          (w\<lparr>console := console w @
               [ConsoleLogSendingMsg (targetSessionId w tgt) (agentDomain w) method params]\<rparr>))"
    using assms by (intro quiet_sendMessage) simp_all
  then show ?thesis
    using assms Inr by (simp add: sendMessageToBackendPromise_def Let_def quiet_fields)
qed

lemma quiet_step:
  assumes "quiet x n w" and "\<not> creates y x"
  shows "quiet x n (step patch y w)"
proof (cases y)
  case (Invoke tag tgt meth request)
  then show ?thesis using assms by (simp add: quiet_invoke)
next
  case (RegisterCommand name ps ra)
  then show ?thesis using assms by (simp add: registerCommand_def)
next
  case (CallCommand tag tgt name args)
  then show ?thesis
    using assms
    by (auto simp: callCommand_def intro!: quiet_sendMessageToBackendPromise
        split: option.splits)
next
  case (SendMessage sid d m p c)
  then show ?thesis using assms by (simp add: quiet_sendMessage)
next
  case (OnMessage incoming)
  then show ?thesis using assms by (simp add: quiet_onMessage)
next
  case (RegisterSession t sid p)
  then show ?thesis using assms by (simp add: quiet_registerSession)
next
  case (UnregisterSession sid)
  then show ?thesis using assms by (simp add: quiet_unregisterSession)
next
  case (RunAfterPendingDispatches sc)
  then show ?thesis
    using assms by (simp add: deprecatedRunAfterPendingDispatches_def quiet_fields)
next
  case RunNextTimer
  then show ?thesis using assms by (simp add: quiet_runNextTimer)
next
  case (Dispose tgt)
  then show ?thesis using assms by (simp add: dispose_def quiet_unregisterSession)
qed

lemma quiet_run:
  "quiet x n w \<Longrightarrow> list_all (\<lambda>y. \<not> creates y x) ys \<Longrightarrow> quiet x n (run patch ys w)"
  by (induction ys arbitrary: w) (simp_all add: quiet_step)

lemma liveWorld_eval:
  "liveWorld =
     \<lparr> connectionSent = [], lastMessageId = 1, issuedIds = [],
       pendingResponsesCount = 0, pendingLongPollingMessageIds = [],
       sessions = [([], \<lparr> target = rootTarget, callbacks = [], proxyConnection = None \<rparr>)],
       pendingScripts = [], timers = [], console = [], trace = [],
       suppressRequestErrors = False, agentDomain = ''DOM'',
       targetSessionId = rootSessionIds, targetRouter = (\<lambda>tgt. True),
       commands = [], replyArgs = [], cachedMessages = [], unresolvedMessages = [] \<rparr>"
  by (simp add: liveWorld_def registerSession_def newWorld_def)

lemma pendingWorld_eval:
  "pendingWorld =
     \<lparr> connectionSent = [requestMessage [] 1 ''DOM.enable'' None],
       lastMessageId = 2, issuedIds = [1],
       pendingResponsesCount = 1, pendingLongPollingMessageIds = [],
       sessions = [([], \<lparr> target = rootTarget,
                           callbacks = [(1, ExternalCallback 0, ''DOM.enable'')],
                           proxyConnection = None \<rparr>)],
       pendingScripts = [], timers = [], console = [], trace = [],
       suppressRequestErrors = False, agentDomain = ''DOM'',
       targetSessionId = rootSessionIds, targetRouter = (\<lambda>tgt. True),
       commands = [], replyArgs = [], cachedMessages = [], unresolvedMessages = [] \<rparr>"
  by (simp add: pendingWorld_def liveWorld_eval sendMessage_def nextMessageId_def
        LongPollingMethods_def requestMessage_def jsIncrement_def doubleIntegerLimit_def)

lemma delete_absent: "k \<notin> fst ` set al \<Longrightarrow> AList.delete k al = al"
  by (induction al) auto

lemma set_update_distinct:
  "distinct (map fst al) \<Longrightarrow>
     set (AList.update k v al) \<subseteq> insert (k, v) (set (AList.delete k al))"
  by (induction al) (auto simp: delete_absent)

lemma heldBySessions_replace:
  assumes "distinct (map fst ss)"
      and "x \<in> set (heldBySessions
                  (AList.update k \<lparr>target = t, callbacks = [], proxyConnection = p\<rparr> ss))"
  shows "x \<in> set (heldBySessions (AList.delete k ss))"
proof -
  let ?new = "\<lparr>target = t, callbacks = [], proxyConnection = p\<rparr>"
  from assms(2) obtain sid s where
    in_upd: "(sid, s) \<in> set (AList.update k ?new ss)" and x: "x \<in> set (callbacksIn (callbacks s))"
    by (auto simp: heldBySessions_def)
  have "(sid, s) = (k, ?new) \<or> (sid, s) \<in> set (AList.delete k ss)"
    using in_upd set_update_distinct [OF assms(1), of k ?new] by blast
  then have "(sid, s) \<in> set (AList.delete k ss)"
    using x by (auto simp: callbacksIn_def)
  then show ?thesis
    using x by (force simp: heldBySessions_def)
qed

text \<open>
  C9. A session id that is already registered is registered again. The entry
  of the session is replaced by a new one with the new target and an empty
  callback map; the call completes, schedules no timer and calls no callback
  (so no callback of the old entry gets a response or a "session is
  unregistering" error from it). A callback \<open>cb\<close> of the old entry that is
  held nowhere else (not by another session, a cached message or a timer) is
  not held by the new state, and no later run of calls calls it, unless one
  of these calls brings \<open>cb\<close> in again. The session map is a map: its keys
  are distinct.
\<close>

theorem registerSession_discards_callbacks:
  assumes "distinct (map fst (sessions w))"
      and "map_of (sessions w) sid = Some old"
      and "cb \<in> set (callbacksIn (callbacks old))"
      and "cb \<notin> set (storedCallbacks (w\<lparr>sessions := AList.delete sid (sessions w)\<rparr>))"
      and "list_all (\<lambda>y. \<not> creates y cb) ys"
  shows "map_of (sessions (registerSession t sid p w)) sid
           = Some \<lparr>target = t, callbacks = [], proxyConnection = p\<rparr>
       \<and> timers (registerSession t sid p w) = timers w
       \<and> trace (registerSession t sid p w) = trace w
       \<and> cb \<notin> set (storedCallbacks (registerSession t sid p w))
       \<and> cb \<notin> set (storedCallbacks (run patch ys (registerSession t sid p w)))
       \<and> invocations cb (run patch ys (registerSession t sid p w)) = invocations cb w"
proof -
  let ?w' = "registerSession t sid p w"
  have f: "sessions ?w'
             = AList.update sid \<lparr>target = t, callbacks = [], proxyConnection = p\<rparr> (sessions w)"
    "timers ?w' = timers w" "trace ?w' = trace w" "cachedMessages ?w' = cachedMessages w"
    by (simp_all add: registerSession_def Let_def)
  have n: "cb \<notin> set (storedCallbacks ?w')"
    using assms(4) heldBySessions_replace [OF assms(1), of cb sid t p]
    by (auto simp: storedCallbacks_def f)
  then have "quiet cb (invocations cb w) ?w'"
    by (simp add: quiet_def invocations_def f)
  then have "quiet cb (invocations cb w) (run patch ys ?w')"
    using assms(5) by (rule quiet_run)
  then show ?thesis
    using n by (simp add: quiet_def f update_conv')
qed

theorem registerSession_discards_callbacks_witness:
  "map_of (sessions pendingWorld) []
     = Some \<lparr> target = rootTarget, callbacks = [(1, ExternalCallback 0, ''DOM.enable'')],
              proxyConnection = None \<rparr>
   \<and> map_of (sessions (registerSession otherTarget [] None pendingWorld)) []
     = Some \<lparr> target = otherTarget, callbacks = [], proxyConnection = None \<rparr>
   \<and> timers (registerSession otherTarget [] None pendingWorld) = []
   \<and> invocations (ExternalCallback 0)
        (run id [OnMessage (Some (response None 1)), RunNextTimer, UnregisterSession []]
           (registerSession otherTarget [] None pendingWorld)) = 0"
proof -
  let ?old = "\<lparr> target = rootTarget, callbacks = [(1, ExternalCallback 0, ''DOM.enable'')],
               proxyConnection = None \<rparr>"
  have h1: "distinct (map fst (sessions pendingWorld))"
    by (simp add: pendingWorld_eval)
  have h2: "map_of (sessions pendingWorld) [] = Some ?old"
    by (simp add: pendingWorld_eval)
  have h3: "ExternalCallback 0 \<in> set (callbacksIn (callbacks ?old))"
    by (simp add: callbacksIn_def)
  have h4: "ExternalCallback 0 \<notin> set (storedCallbacks
              (pendingWorld\<lparr>sessions := AList.delete [] (sessions pendingWorld)\<rparr>))"
    by (simp add: pendingWorld_eval storedCallbacks_def heldBySessions_def heldByCache_def)
  have h5: "list_all (\<lambda>y. \<not> creates y (ExternalCallback 0))
              [OnMessage (Some (response None 1)), RunNextTimer, UnregisterSession []]"
    by simp
  have i0: "invocations (ExternalCallback 0) pendingWorld = 0"
    by (simp add: pendingWorld_eval invocations_def)
  show ?thesis
    using registerSession_discards_callbacks [OF h1 h2 h3 h4 h5, of otherTarget None id] h2 i0
    by (simp add: pendingWorld_eval)
qed

section \<open>Facts about coalescing\<close>











lemma isUnresolved_update:
  "isUnresolved (w\<lparr>unresolvedMessages := AList.update method 1 u\<rparr>) method"
  by (simp add: isUnresolved_def update_conv')

subsection \<open>No message for a method without a call that asks for one\<close>

lemma settled_update [simp]:
  "settled d m S (w\<lparr>lastMessageId := b0\<rparr>) = settled d m S w"
  "settled d m S (w\<lparr>issuedIds := c0\<rparr>) = settled d m S w"
  "settled d m S (w\<lparr>pendingResponsesCount := a1\<rparr>) = settled d m S w"
  "settled d m S (w\<lparr>pendingLongPollingMessageIds := a2\<rparr>) = settled d m S w"
  "settled d m S (w\<lparr>sessions := a3\<rparr>) = settled d m S w"
  "settled d m S (w\<lparr>pendingScripts := a4\<rparr>) = settled d m S w"
  "settled d m S (w\<lparr>timers := a5\<rparr>) = settled d m S w"
  "settled d m S (w\<lparr>console := a6\<rparr>) = settled d m S w"
  "settled d m S (w\<lparr>trace := a7\<rparr>) = settled d m S w"
  "settled d m S (w\<lparr>suppressRequestErrors := a8\<rparr>) = settled d m S w"
  "settled d m S (w\<lparr>targetSessionId := a10\<rparr>) = settled d m S w"
  "settled d m S (w\<lparr>targetRouter := a11\<rparr>) = settled d m S w"
  "settled d m S (w\<lparr>commands := a12\<rparr>) = settled d m S w"
  "settled d m S (w\<lparr>unresolvedMessages := a14\<rparr>) = settled d m S w"
  "settled d m S (w\<lparr>replyArgs := a15\<rparr>) = settled d m S w"
  by (simp_all add: settled_def sentFor_def)




















subsection \<open>No further outstanding request without a call that asks for one\<close>

lemma outstanding_update [simp]:
  "outstanding m (w\<lparr>connectionSent := a0\<rparr>) = outstanding m w"
  "outstanding m (w\<lparr>lastMessageId := b0\<rparr>) = outstanding m w"
  "outstanding m (w\<lparr>issuedIds := c0\<rparr>) = outstanding m w"
  "outstanding m (w\<lparr>pendingResponsesCount := a1\<rparr>) = outstanding m w"
  "outstanding m (w\<lparr>pendingLongPollingMessageIds := a2\<rparr>) = outstanding m w"
  "outstanding m (w\<lparr>pendingScripts := a4\<rparr>) = outstanding m w"
  "outstanding m (w\<lparr>timers := a5\<rparr>) = outstanding m w"
  "outstanding m (w\<lparr>console := a6\<rparr>) = outstanding m w"
  "outstanding m (w\<lparr>trace := a7\<rparr>) = outstanding m w"
  "outstanding m (w\<lparr>suppressRequestErrors := a8\<rparr>) = outstanding m w"
  "outstanding m (w\<lparr>agentDomain := a9\<rparr>) = outstanding m w"
  "outstanding m (w\<lparr>targetSessionId := a10\<rparr>) = outstanding m w"
  "outstanding m (w\<lparr>targetRouter := a11\<rparr>) = outstanding m w"
  "outstanding m (w\<lparr>commands := a12\<rparr>) = outstanding m w"
  "outstanding m (w\<lparr>cachedMessages := a13\<rparr>) = outstanding m w"
  "outstanding m (w\<lparr>unresolvedMessages := a14\<rparr>) = outstanding m w"
  "outstanding m (w\<lparr>replyArgs := a15\<rparr>) = outstanding m w"
  by (simp_all add: outstanding_def)



















subsection \<open>Three calls in a row\<close>




end
